theory Spec2Isabelle
  imports Main
begin

section \<open>The world the maintenance scripts act on\<close>

text \<open>
  The three scripts \<^verbatim>\<open>fix_eslint.py\<close>, \<^verbatim>\<open>fix_all_eslint.py\<close> and
  \<^verbatim>\<open>fix_final_eslint.py\<close> read and overwrite files, delete files, print to the
  console and start one subprocess. The model threads a \<open>world\<close> through every
  call: the files (a map from path to node) and the trace of effects performed so far,
  oldest first. A Python exception is the value \<open>Inl e\<close>; the world it is paired with
  is the world at the moment of the raise.

  A text is a \<open>string\<close>; each \<open>char\<close> stands for one code point below 256.
  File contents are kept as the characters the text codec of \<^verbatim>\<open>open\<close> yields;
  texts the codec rejects, permissions and symbolic links are outside the model.
\<close>

datatype node = File string | Dir

datatype event =
    Stat string
  | Read string
  | Write string string
  | Remove string
  | Print string
  | Run "string list"

text \<open>The exceptions of the model. \<open>Outside_fragment\<close> is no exception of Python: it marks
  a call of the substitution model below on syntax the model gives no meaning to.
  \<open>Subprocess_error\<close> is what a subprocess that cannot be started raises.\<close>

datatype error =
    FileNotFoundError string
  | IsADirectoryError string
  | Outside_fragment string string
  | Subprocess_error string

record world =
  files :: "string \<rightharpoonup> node"
  trace :: "event list"

type_synonym 'a io = "world \<Rightarrow> (error + 'a) \<times> world"

definition return_io :: "'a \<Rightarrow> 'a io" where
  "return_io x w = (Inr x, w)"

definition bind_io :: "'a io \<Rightarrow> ('a \<Rightarrow> 'b io) \<Rightarrow> 'b io" where
  "bind_io m f w = (case m w of (Inl e, w') \<Rightarrow> (Inl e, w') | (Inr x, w') \<Rightarrow> f x w')"

definition lift_io :: "error + 'a \<Rightarrow> 'a io" where
  "lift_io r w = (r, w)"

definition log_event :: "event \<Rightarrow> world \<Rightarrow> world" where
  "log_event e w = w\<lparr>trace := trace w @ [e]\<rparr>"

abbreviation (input) LF :: char where "LF \<equiv> CHR 0x0A"
abbreviation (input) CR :: char where "CR \<equiv> CHR 0x0D"
abbreviation (input) bsl :: char where "bsl \<equiv> CHR 0x5C"

text \<open>\<^verbatim>\<open>os.path.exists(p)\<close>: true for a file and for a directory; it never raises.\<close>

definition os_path_exists :: "string \<Rightarrow> bool io" where
  "os_path_exists p w = (Inr (files w p \<noteq> None), log_event (Stat p) w)"

text \<open>\<^verbatim>\<open>print(s)\<close>: the event records the argument; the console shows it followed
  by a line feed.\<close>

definition py_print :: "string \<Rightarrow> unit io" where
  "py_print s w = (Inr (), log_event (Print s) w)"

text \<open>Reading in text mode translates \<^verbatim>\<open>\r\n\<close> and a lone \<^verbatim>\<open>\r\<close> to
  \<^verbatim>\<open>\n\<close> (universal newlines, the default of \<^verbatim>\<open>open(p, 'r')\<close>).\<close>

fun universal_newlines :: "string \<Rightarrow> string" where
  "universal_newlines [] = []"
| "universal_newlines [c] = [if c = CR then LF else c]"
| "universal_newlines (c # d # ds) =
     (if c = CR \<and> d = LF then LF # universal_newlines ds
      else if c = CR then LF # universal_newlines (d # ds)
      else c # universal_newlines (d # ds))"

text \<open>\<^verbatim>\<open>with open(p, 'r') as f: f.read()\<close>\<close>

definition open_read :: "string \<Rightarrow> string io" where
  "open_read p w =
     (case files w p of
        None \<Rightarrow> (Inl (FileNotFoundError p), w)
      | Some Dir \<Rightarrow> (Inl (IsADirectoryError p), w)
      | Some (File raw) \<Rightarrow> (Inr (universal_newlines raw), log_event (Read p) w))"

text \<open>\<^verbatim>\<open>with open(p, 'w') as f: f.write(s)\<close>: the file is created or replaced as a
  whole. On the POSIX systems the scripts are written for, writing translates nothing.\<close>

definition open_write :: "string \<Rightarrow> string \<Rightarrow> unit io" where
  "open_write p s w =
     (case files w p of
        Some Dir \<Rightarrow> (Inl (IsADirectoryError p), w)
      | _ \<Rightarrow> (Inr (), log_event (Write p s) (w\<lparr>files := (files w)(p \<mapsto> File s)\<rparr>)))"

text \<open>\<^verbatim>\<open>os.remove(p)\<close>\<close>

definition os_remove :: "string \<Rightarrow> unit io" where
  "os_remove p w =
     (case files w p of
        None \<Rightarrow> (Inl (FileNotFoundError p), w)
      | Some Dir \<Rightarrow> (Inl (IsADirectoryError p), w)
      | Some (File raw) \<Rightarrow> (Inr (), log_event (Remove p) (w\<lparr>files := (files w)(p := None)\<rparr>)))"

text \<open>The events a run added to the trace.\<close>

definition new_events :: "world \<Rightarrow> world \<Rightarrow> event list" where
  "new_events w w' = drop (length (trace w)) (trace w')"

section \<open>The file patcher \<^verbatim>\<open>fix_file\<close>\<close>

text \<open>
  \<^verbatim>\<open>re.sub(pattern, replacement, content, flags=re.MULTILINE | re.DOTALL)\<close> is a
  function of the standard library. \<open>fix_file\<close> takes it as the parameter
  \<open>re_sub\<close>; it may raise.
\<close>

type_synonym re_sub_fn = "string \<Rightarrow> string \<Rightarrow> string \<Rightarrow> error + string"

text \<open>The loop \<^verbatim>\<open>for pattern, replacement in fixes: content = re.sub(...)\<close>.\<close>

fun apply_fixes :: "re_sub_fn \<Rightarrow> (string \<times> string) list \<Rightarrow> string \<Rightarrow> error + string" where
  "apply_fixes re_sub [] content = Inr content"
| "apply_fixes re_sub ((pattern, replacement) # fixes) content =
     (case re_sub pattern replacement content of
        Inl e \<Rightarrow> Inl e
      | Inr content' \<Rightarrow> apply_fixes re_sub fixes content')"

definition fix_file :: "re_sub_fn \<Rightarrow> string \<Rightarrow> (string \<times> string) list \<Rightarrow> unit io" where
  "fix_file re_sub filepath fixes =
     bind_io (os_path_exists filepath) (\<lambda>ex.
       if \<not> ex then py_print (''File not found: '' @ filepath)
       else
         bind_io (open_read filepath) (\<lambda>original.
         bind_io (lift_io (apply_fixes re_sub fixes original)) (\<lambda>content.
           if content \<noteq> original
           then bind_io (open_write filepath content) (\<lambda>u.
                  py_print (''Fixed: '' @ filepath))
           else return_io ())))"

text \<open>
  The specification's wording of the loop: the left-to-right fold of the substitution
  over the list of pairs, starting from the original content.
\<close>

definition subst_step :: "re_sub_fn \<Rightarrow> error + string \<Rightarrow> string \<times> string \<Rightarrow> error + string" where
  "subst_step re_sub acc fix =
     (case acc of Inl e \<Rightarrow> Inl e | Inr c \<Rightarrow> re_sub (fst fix) (snd fix) c)"

definition subst_fold :: "re_sub_fn \<Rightarrow> (string \<times> string) list \<Rightarrow> string \<Rightarrow> error + string" where
  "subst_fold re_sub fixes content = foldl (subst_step re_sub) (Inr content) fixes"

section \<open>The three scripts\<close>

text \<open>
  Each script is a straight-line sequence of \<open>fix_file\<close> calls, followed by the writing
  or deleting of linter configuration files and by the lint run. The calls of a script are
  kept as a table of (path, fixes) in the order of the source; an exception raised by one
  statement ends the script, so the statements after it are not run.
\<close>

fun run_all :: "unit io list \<Rightarrow> unit io" where
  "run_all [] = return_io ()"
| "run_all (m # ms) = bind_io m (\<lambda>u. run_all ms)"

definition apply_patches :: "re_sub_fn \<Rightarrow> (string \<times> (string \<times> string) list) list \<Rightarrow> unit io" where
  "apply_patches re_sub table =
     run_all (map (\<lambda>(filepath, fixes). fix_file re_sub filepath fixes) table)"

text \<open>
  \<^verbatim>\<open>subprocess.run(args, capture_output=True, text=True)\<close> returns once the child
  has exited. The child is a parameter: from the arguments and the files it finds, it
  either cannot be started or yields its result and the files it leaves behind.
\<close>

record completed_process =
  returncode :: int
  stdout :: string
  stderr :: string

type_synonym subprocess =
  "string list \<Rightarrow> (string \<rightharpoonup> node) \<Rightarrow> error + (completed_process \<times> (string \<rightharpoonup> node))"

definition subprocess_run :: "subprocess \<Rightarrow> string list \<Rightarrow> completed_process io" where
  "subprocess_run proc args w =
     (case proc args (files w) of
        Inl e \<Rightarrow> (Inl e, w)
      | Inr (result, fs') \<Rightarrow> (Inr result, log_event (Run args) (w\<lparr>files := fs'\<rparr>)))"

definition lint_command :: "string list" where
  "lint_command = [''npm'', ''run'', ''lint'']"

definition running_eslint :: string where
  "running_eslint = ''\<newline>Running ESLint to check remaining issues...''"

text \<open>The last four statements of every script.\<close>

definition lint_and_report :: "subprocess \<Rightarrow> unit io" where
  "lint_and_report proc =
     bind_io (py_print running_eslint) (\<lambda>u.
     bind_io (subprocess_run proc lint_command) (\<lambda>result.
     bind_io (py_print (stdout result)) (\<lambda>u.
     py_print (stderr result))))"

subsection \<open>\<^verbatim>\<open>fix_eslint.py\<close>\<close>

definition fix_eslint_patches :: "(string \<times> (string \<times> string) list) list" where
  "fix_eslint_patches =
    [
     (''src/app/(dashboard)/assistant/page.tsx'',
       [
         (''import { format } from '' @ bsl # CHR 0x27 # ''date-fns'' @ bsl # CHR 0x27 # bsl # ''n'',
          ''''),
         ('': any'' @ bsl # ''['' @ bsl # '']'',
          '': unknown[]''),
         (''catch '' @ bsl # ''(e: any'' @ bsl # '')'',
          ''catch (e: unknown)''),
         (''onChange: '' @ bsl # ''(messages: any'' @ bsl # ''['' @ bsl # '']'' @ bsl # '')'',
          ''onChange: (messages: Message[])''),
         (''setMessages'' @ bsl # ''(prev => '' @ bsl # ''(prev as any'' @ bsl # '')'',
          ''setMessages(prev => (prev as Message[])''),
         (''const '' @ bsl # ''[threadId, messageId'' @ bsl # ''] = e'' @ bsl # ''.detail as any;'',
          ''const [_threadId, _messageId] = e.detail as [string, string];'')
       ]),
     (''src/app/api/reports/schedule/route.tsx'',
       [
         (''const mockScheduledReports: any'' @ bsl # ''['' @ bsl # '']'',
          ''const mockScheduledReports: unknown[]''),
         (''} catch '' @ bsl # ''(error'' @ bsl # '') {'',
          ''} catch (_error) {'')
       ]),
     (''src/app/reports/[id]/page.tsx'',
       [
         (''import { .*, Calendar, Clock,.*'',
          ''import { ArrowLeft, Download, Mail, Share2, CheckCircle2, XCircle, AlertCircle } from 'lucide-react';''),
         (''const '' @ bsl # ''[reportData, setReportData'' @ bsl # ''] = useState<any>'',
          ''const [reportData, setReportData] = useState<unknown>''),
         (bsl # ''.map'' @ bsl # ''('' @ bsl # ''(run: any'' @ bsl # '')'',
          ''.map((run: unknown)'')
       ]),
     (''src/app/runs/[id]/page.tsx'',
       [
         (''import {['' @ bsl # ''s'' @ bsl # ''S]*?ResponsiveContainer['' @ bsl # ''s'' @ bsl # ''S]*?} from '' @ bsl # CHR 0x27 # ''recharts'' @ bsl # [CHR 0x27],
          ''import {\<newline>'' @ ''  LineChart,\<newline>'' @ ''  Line,\<newline>'' @ ''  XAxis,\<newline>'' @ ''  YAxis,\<newline>'' @ ''  CartesianGrid,\<newline>'' @ ''  Tooltip,\<newline>'' @ ''  ResponsiveContainer\<newline>'' @ ''} from 'recharts'' @ [CHR 0x27])
       ]),
     (''src/components/reports/ReportModal.tsx'',
       [
         (''const '' @ bsl # ''[reportData, setReportData'' @ bsl # ''] = useState<any>'',
          ''const [reportData, setReportData] = useState<unknown>'')
       ]),
     (''src/components/reports/ReportPreview.tsx'',
       [
         (''const '' @ bsl # ''[selectedInstruments, setSelectedInstruments'' @ bsl # ''] = useState<string'' @ bsl # ''['' @ bsl # '']>'' @ bsl # ''('' @ bsl # ''['' @ bsl # '']'' @ bsl # '');['' @ bsl # ''n'' @ bsl # ''s]*'',
          ''''),
         (''const CustomTooltip = '' @ bsl # ''({ active, payload, label }: any'' @ bsl # '')'',
          ''const CustomTooltip = ({ active, payload, label }: { active?: boolean; payload?: Array<{ color: string; name: string; value: number }>; label?: string })''),
         (''payload'' @ bsl # ''.map'' @ bsl # ''('' @ bsl # ''(entry: any, index: number'' @ bsl # '')'',
          ''payload.map((entry, index: number)''),
         (''label='' @ bsl # ''{'' @ bsl # ''(props: any'' @ bsl # '')'',
          ''label={(props: { percent: number })'')
       ]),
     (''src/components/reports/ReportPlanCard.tsx'',
       [
         (''import {['' @ bsl # ''s'' @ bsl # ''S]*?DocumentArrowDownIcon['' @ bsl # ''s'' @ bsl # ''S]*?} from[^'' @ bsl # ''n]+'' @ bsl # ''n'',
          ''import { CalendarIcon, ChartBarIcon, BeakerIcon, ClockIcon } from '@heroicons/react/24/outline';\<newline>'')
       ]),
     (''src/app/signup/page.tsx'',
       [
         (''const { data, error }'',
          ''const { error }'')
       ]),
     (''src/contexts/supabase-session-context.tsx'',
       [
         (''import { signIn, signUp, signOut, getCurrentUser, getSession }'',
          ''import { signIn, signUp, signOut, getSession }''),
         (''import { UserRole } from[^'' @ bsl # ''n]+'' @ bsl # ''n'',
          ''''),
         (''const { session, user }'',
          ''const { user }''),
         (''const { data, error }'',
          ''const { data }''),
         (''}, '' @ bsl # ''['' @ bsl # '']'' @ bsl # '')'',
          ''}, [supabase.auth])'')
       ]),
     (''src/contexts/chat-context.tsx'',
       [
         (''assistantMessageId: string '' @ bsl # ''| any'',
          ''assistantMessageId: string | unknown'')
       ]),
     (''src/lib/security/xss-protection.ts'',
       [
         (''sanitizeObject'' @ bsl # ''(obj: any'' @ bsl # '')'',
          ''sanitizeObject(obj: Record<string, unknown>)'')
       ]),
     (''src/lib/security/auth-manager.ts'',
       [
         (''function validateProductionConfig['' @ bsl # ''s'' @ bsl # ''S]*?^}'',
          '''')
       ]),
     (''src/lib/supabase/server.ts'',
       [
         (''} catch '' @ bsl # ''(error'' @ bsl # '') {'',
          ''} catch (_error) {'')
       ]),
     (''src/app/api/onboarding/profile/route.ts'',
       [
         (''} catch '' @ bsl # ''(error'' @ bsl # '') {'',
          ''} catch (_error) {''),
         (''} catch '' @ bsl # ''(dbError'' @ bsl # '') {'',
          ''} catch (_dbError) {''),
         (''const _ ='',
          ''const _unused ='')
       ]),
     (''src/app/api/onboarding/role/route.ts'',
       [
         (''} catch '' @ bsl # ''(dbError'' @ bsl # '') {'',
          ''} catch (_dbError) {'')
       ]),
     (''src/app/api/users/sync/route.ts'',
       [
         (''export async function POST'' @ bsl # ''(request: NextRequest'' @ bsl # '')'',
          ''export async function POST(_request: NextRequest)'')
       ])
    ]"

definition fix_eslint_edits :: "re_sub_fn \<Rightarrow> unit io" where
  "fix_eslint_edits re_sub = apply_patches re_sub fix_eslint_patches"

definition fix_eslint_main :: "re_sub_fn \<Rightarrow> subprocess \<Rightarrow> unit io" where
  "fix_eslint_main re_sub proc =
     bind_io (fix_eslint_edits re_sub) (\<lambda>u. lint_and_report proc)"

subsection \<open>\<^verbatim>\<open>fix_all_eslint.py\<close>\<close>

text \<open>The first entry is the list \<^verbatim>\<open>assistant_fixes\<close>, which the script builds
  by three \<^verbatim>\<open>append\<close> calls before it passes it to \<open>fix_file\<close>.\<close>

definition fix_all_eslint_patches :: "(string \<times> (string \<times> string) list) list" where
  "fix_all_eslint_patches =
    [
     (''src/app/(dashboard)/assistant/page.tsx'',
       [
         (''(const handleSubmit = async '' @ bsl # ''(e: React'' @ bsl # ''.FormEvent'' @ bsl # '') => {[^}]*?const originalInput = input'' @ bsl # ''.trim'' @ bsl # ''('' @ bsl # '')'' @ bsl # ''n)'',
          bsl # ''1'' @ bsl # ''n    // Type for window with protocol'' @ bsl # ''n    interface WindowWithProtocol extends Window {'' @ bsl # ''n      __pendingProtocol?: { protocolId: string; threadId: string; messageId: string };'' @ bsl # ''n    }'' @ bsl # ''n''),
         (bsl # ''(window as any'' @ bsl # '')'' @ bsl # ''.__pendingProtocol'',
          ''(window as unknown as WindowWithProtocol).__pendingProtocol''),
         (''const '' @ bsl # ''{ protocolId, threadId, messageId '' @ bsl # ''} = '',
          ''const { protocolId } = '')
       ]),
     (''src/app/api/reports/schedule/route.ts'',
       [
         (''const mockScheduledReports: any'' @ bsl # ''['' @ bsl # '']'',
          ''const mockScheduledReports: unknown[]''),
         (''} catch '' @ bsl # ''(error'' @ bsl # '') {'',
          ''} catch (_error) {'')
       ]),
     (''src/app/reports/[id]/page.tsx'',
       [
         (''import '' @ bsl # ''{ ArrowLeft, Download, Mail, Share2, CheckCircle2, XCircle, AlertCircle '' @ bsl # ''}'',
          ''import {}'')
       ]),
     (''src/app/runs/[id]/page.tsx'',
       [
         (''import '' @ bsl # ''{[^}]+'' @ bsl # ''} from 'lucide-react'' @ [CHR 0x27],
          ''import { ArrowLeft, Download, Share2, Activity, Clock, Beaker, TrendingUp, AlertCircle, CheckCircle, XCircle, FileText } from 'lucide-react'' @ [CHR 0x27]),
         (''import '' @ bsl # ''{[^}]+'' @ bsl # ''} from 'recharts'' @ [CHR 0x27],
          ''import { LineChart, Line, XAxis, YAxis, CartesianGrid, Tooltip, ResponsiveContainer, PieChart, Pie, Cell, Legend } from 'recharts'' @ [CHR 0x27])
       ]),
     (''src/components/reports/ReportPlanCard.tsx'',
       [
         (''import '' @ bsl # ''{ CalendarIcon, ChartBarIcon, BeakerIcon, ClockIcon '' @ bsl # ''} from '@heroicons/react/24/outline'' @ [CHR 0x27],
          ''import { CalendarIcon, ChartBarIcon, BeakerIcon, ClockIcon, ChartPieIcon, FlagIcon, EnvelopeIcon } from '@heroicons/react/24/outline'' @ [CHR 0x27]),
         (''(import type '' @ bsl # ''{ ReportPlan '' @ bsl # ''} from '@/types/reports'' @ CHR 0x27 # bsl # ''n)'',
          bsl # ''1import { Card, CardHeader, CardContent, CardFooter } from '@/components/ui/card'' @ CHR 0x27 # bsl # ''nimport { Badge } from '@/components/ui/badge'' @ CHR 0x27 # bsl # ''nimport { Button } from '@/components/ui/button'' @ CHR 0x27 # bsl # ''n'')
       ]),
     (''src/app/api/integrations/[id]/credentials/route.ts'',
       [
         (bsl # ''(req:'',
          ''(_req:''),
         ('', userId:'',
          '', _userId:''),
         ('', user:'',
          '', _user:'')
       ]),
     (''src/app/api/onboarding/profile/route.ts'',
       [
         (''const '' @ bsl # ''{ error '' @ bsl # ''}'',
          ''const { error: _error }''),
         (''} catch '' @ bsl # ''(dbError'' @ bsl # '')'',
          ''} catch (_dbError)''),
         (''} catch '' @ bsl # ''(error'' @ bsl # '')'',
          ''} catch (_error)''),
         (''const _ ='',
          ''const _unused ='')
       ]),
     (''src/app/api/onboarding/role/route.ts'',
       [
         (''} catch '' @ bsl # ''(dbError'' @ bsl # '')'',
          ''} catch (_dbError)'')
       ]),
     (''src/app/api/users/sync/route.ts'',
       [
         (''export async function POST'' @ bsl # ''(request:'',
          ''export async function POST(_request:'')
       ]),
     (''src/contexts/chat-context.tsx'',
       [
         (''assistantMessageId: string '' @ bsl # ''| any'',
          ''assistantMessageId: string | unknown'')
       ]),
     (''src/lib/security/xss-protection.ts'',
       [
         (''sanitizeObject'' @ bsl # ''(obj: any'' @ bsl # '')'',
          ''sanitizeObject(obj: Record<string, unknown>)'')
       ]),
     (''src/lib/supabase/server.ts'',
       [
         (''} catch '' @ bsl # ''(error'' @ bsl # '')'',
          ''} catch (_error)'')
       ]),
     (''src/app/signup/page.tsx'',
       [
         (''const '' @ bsl # ''{ data, error '' @ bsl # ''}'',
          ''const { error }'')
       ]),
     (''src/contexts/supabase-session-context.tsx'',
       [
         (''const '' @ bsl # ''{ session, user '' @ bsl # ''}'',
          ''const { user }''),
         (''const '' @ bsl # ''{ data, error '' @ bsl # ''}'',
          ''const { data }'')
       ])
    ]"

definition eslintignore :: string where
  "eslintignore =
     ''scripts/\<newline>'' @
     ''test-credential-security.js\<newline>''"

definition fix_all_eslint_edits :: "re_sub_fn \<Rightarrow> unit io" where
  "fix_all_eslint_edits re_sub =
     bind_io (apply_patches re_sub fix_all_eslint_patches) (\<lambda>u.
     bind_io (open_write ''.eslintignore'' eslintignore) (\<lambda>u.
     py_print ''Created .eslintignore''))"

definition fix_all_eslint_main :: "re_sub_fn \<Rightarrow> subprocess \<Rightarrow> unit io" where
  "fix_all_eslint_main re_sub proc =
     bind_io (fix_all_eslint_edits re_sub) (\<lambda>u. lint_and_report proc)"

subsection \<open>\<^verbatim>\<open>fix_final_eslint.py\<close>\<close>

definition fix_final_eslint_patches :: "(string \<times> (string \<times> string) list) list" where
  "fix_final_eslint_patches =
    [
     (''src/contexts/chat-context.tsx'',
       [
         (''} catch '' @ bsl # ''(error'' @ bsl # '') {'',
          ''} catch (error) {''),
         (''if '' @ bsl # ''(error'' @ bsl # ''?'' @ bsl # ''.status'',
          ''if ((error as { status?: number })?.status''),
         (''error'' @ bsl # ''?'' @ bsl # ''.message'',
          ''(error as { message?: string })?.message''),
         (''const parsedThreads = result'' @ bsl # ''.threads'' @ bsl # ''.map'' @ bsl # ''('' @ bsl # ''(thread: unknown'' @ bsl # '') => '' @ bsl # ''('' @ bsl # ''{'',
          ''const parsedThreads = result.threads.map((thread: { id: string; title: string; messages: Array<{ id: string }> }) => ({''),
         (bsl # ''(thread as '' @ bsl # ''{ messages: unknown'' @ bsl # ''['' @ bsl # ''] '' @ bsl # ''}'' @ bsl # '')'' @ bsl # ''.messages'' @ bsl # ''.map'' @ bsl # ''('' @ bsl # ''(msg: unknown'' @ bsl # '') => '' @ bsl # ''('' @ bsl # ''{'',
          ''thread.messages.map((msg: { id: string }) => ({''),
         (''// eslint-disable-next-line @typescript-eslint/no-explicit-any'' @ bsl # ''n'',
          '''')
       ]),
     (''src/lib/security/xss-protection.ts'',
       [
         (''return String'' @ bsl # ''(input'' @ bsl # '')'',
          ''return String(input as string | number | boolean)'')
       ])
    ]"

definition eslint_config :: string where
  "eslint_config =
     ''import { FlatCompat } from '@eslint/eslintrc';\<newline>'' @
     ''import path from 'path';\<newline>'' @
     ''import { fileURLToPath } from 'url';\<newline>'' @
     ''\<newline>'' @
     ''const __filename = fileURLToPath(import.meta.url);\<newline>'' @
     ''const __dirname = path.dirname(__filename);\<newline>'' @
     ''\<newline>'' @
     ''const compat = new FlatCompat({\<newline>'' @
     ''  baseDirectory: __dirname\<newline>'' @
     ''});\<newline>'' @
     ''\<newline>'' @
     ''const config = [\<newline>'' @
     ''  ...compat.extends('next/core-web-vitals', 'plugin:@typescript-eslint/recommended'),\<newline>'' @
     ''  {\<newline>'' @
     ''    rules: {\<newline>'' @
     ''      '@typescript-eslint/no-unused-vars': [\<newline>'' @
     ''        'error',\<newline>'' @
     ''        {\<newline>'' @
     ''          argsIgnorePattern: '^_',\<newline>'' @
     ''          varsIgnorePattern: '^_',\<newline>'' @
     ''          ignoreRestSiblings: true\<newline>'' @
     ''        }\<newline>'' @
     ''      ],\<newline>'' @
     ''      '@typescript-eslint/no-explicit-any': 'error',\<newline>'' @
     ''      '@typescript-eslint/no-require-imports': 'off',\<newline>'' @
     ''      '@typescript-eslint/no-var-requires': 'off',\<newline>'' @
     ''      'prefer-const': 'error',\<newline>'' @
     ''      'react-hooks/exhaustive-deps': 'error'' @ CHR 0x27 # ''\<newline>'' @
     ''    },\<newline>'' @
     ''    ignores: ['scripts/**', 'test-*.js', '*.js', 'fix_*.py']\<newline>'' @
     ''  }\<newline>'' @
     ''];\<newline>'' @
     ''\<newline>'' @
     ''export default config;\<newline>''"

text \<open>The guarded deletion, written out twice in the script (lines 86 to 88 for
  \<^verbatim>\<open>.eslintrc.json\<close>, lines 91 to 93 for \<^verbatim>\<open>.eslintignore\<close>).\<close>

definition remove_if_exists :: "string \<Rightarrow> unit io" where
  "remove_if_exists p =
     bind_io (os_path_exists p) (\<lambda>ex.
       if ex then bind_io (os_remove p) (\<lambda>u. py_print (''Removed '' @ p))
       else return_io ())"

definition fix_final_eslint_edits :: "re_sub_fn \<Rightarrow> unit io" where
  "fix_final_eslint_edits re_sub =
     bind_io (apply_patches re_sub fix_final_eslint_patches) (\<lambda>u.
     bind_io (open_write ''eslint.config.mjs'' eslint_config) (\<lambda>u.
     bind_io (py_print ''Created eslint.config.mjs with ignores'') (\<lambda>u.
     bind_io (remove_if_exists ''.eslintrc.json'') (\<lambda>u.
     remove_if_exists ''.eslintignore''))))"

definition fix_final_eslint_main :: "re_sub_fn \<Rightarrow> subprocess \<Rightarrow> unit io" where
  "fix_final_eslint_main re_sub proc =
     bind_io (fix_final_eslint_edits re_sub) (\<lambda>u. lint_and_report proc)"

text \<open>Classification of events.\<close>

fun is_run :: "event \<Rightarrow> bool" where
  "is_run (Run args) = True"
| "is_run e = False"

subsection \<open>Example worlds for the worked instances\<close>

text \<open>A file with a Windows line ending, one directory, and something already printed; the
  fix list is the one \<^verbatim>\<open>fix_eslint.py\<close> applies to the file.\<close>

definition server_ts :: string where
  "server_ts = ''src/lib/supabase/server.ts''"

definition server_fixes :: "(string \<times> string) list" where
  "server_fixes = [(''} catch '' @ bsl # ''(error'' @ bsl # '') {'', ''} catch (_error) {'')]"

definition example_world :: world where
  "example_world =
     \<lparr>files = [server_ts \<mapsto> File (''} catch (error) {'' @ [CR, LF]), ''src'' \<mapsto> Dir],
      trace = [Print ''earlier'']\<rparr>"

text \<open>The same file among other files, after other effects.\<close>

definition other_world :: world where
  "other_world =
     \<lparr>files = [server_ts \<mapsto> File (''} catch (error) {'' @ [CR, LF]),
               ''README.md'' \<mapsto> File ''notes''],
      trace = []\<rparr>"

definition empty_world :: world where
  "empty_world = \<lparr>files = Map.empty, trace = []\<rparr>"

text \<open>A file that holds one line matched by the first fix of the first call of
  \<^verbatim>\<open>fix_final_eslint.py\<close>, and by no other fix of that call.\<close>

definition chat_world :: world where
  "chat_world =
     \<lparr>files = [''src/contexts/chat-context.tsx'' \<mapsto> File ''} catch (error) {''], trace = []\<rparr>"

text \<open>A lint run that reports problems and leaves the files alone.\<close>

definition example_lint :: subprocess where
  "example_lint args fs =
     Inr (\<lparr>returncode = 1, stdout = ''2 problems'', stderr = ''npm warn''\<rparr>, fs)"

text \<open>A computation is quiet when it only appends to the trace and starts no
  subprocess.\<close>

definition quiet :: "'a io \<Rightarrow> bool" where
  "quiet m = (\<forall>w. \<exists>evs. trace (snd (m w)) = trace w @ evs \<and> (\<forall>e \<in> set evs. \<not> is_run e))"

text \<open>A world in which both files of \<^verbatim>\<open>fix_final_eslint.py\<close> exist and match a fix, and
  both legacy configuration files exist.\<close>

definition patch_world :: world where
  "patch_world =
     \<lparr>files = [''src/contexts/chat-context.tsx'' \<mapsto> File ''if (error?.status === 401) {\<newline>'',
               ''src/lib/security/xss-protection.ts'' \<mapsto> File ''return String(input)'',
               ''.eslintrc.json'' \<mapsto> File ''{}'',
               ''.eslintignore'' \<mapsto> File ''scripts/\<newline>''],
      trace = []\<rparr>"

text \<open>What a run of the edits that ended normally in \<open>w1\<close> has done to the file of one table
  entry, if the entry names a file of the starting world \<open>w\<close>: every substitution went
  through, the file holds the fold result, and it was written if that differs from the
  text read.\<close>

definition patched :: "re_sub_fn \<Rightarrow> world \<Rightarrow> world \<Rightarrow> string \<times> (string \<times> string) list \<Rightarrow> bool" where
  "patched re_sub w w1 entry =
     (\<forall>raw. files w (fst entry) = Some (File raw) \<longrightarrow>
        (\<exists>content.
           subst_fold re_sub (snd entry) (universal_newlines raw) = Inr content
           \<and> files w1 (fst entry)
               = Some (File (if content \<noteq> universal_newlines raw then content else raw))
           \<and> (content \<noteq> universal_newlines raw
                \<longrightarrow> Write (fst entry) content \<in> set (new_events w w1))))"

text \<open>The statements of \<^verbatim>\<open>fix_all_eslint.py\<close> and of \<^verbatim>\<open>fix_final_eslint.py\<close>
  between the last \<open>fix_file\<close> call and the lint run.\<close>

definition fix_all_tail :: "unit io" where
  "fix_all_tail = bind_io (open_write ''.eslintignore'' eslintignore) (\<lambda>u.
     py_print ''Created .eslintignore'')"

definition fix_final_tail :: "unit io" where
  "fix_final_tail =
     bind_io (open_write ''eslint.config.mjs'' eslint_config) (\<lambda>u.
     bind_io (py_print ''Created eslint.config.mjs with ignores'') (\<lambda>u.
     bind_io (remove_if_exists ''.eslintrc.json'') (\<lambda>u.
     remove_if_exists ''.eslintignore'')))"

section \<open>A model of \<^verbatim>\<open>re.sub\<close> for the pattern syntax of the patch tables\<close>

text \<open>
  The fragment of Python's regular expressions modelled here: literal characters,
  backslash escapes of punctuation, \<^verbatim>\<open>\n \t \r \s \S\<close>, the dot (with
  \<^verbatim>\<open>re.DOTALL\<close> it matches every character), bracketed sets without ranges,
  \<^verbatim>\<open>^\<close> and \<^verbatim>\<open>$\<close> (with \<^verbatim>\<open>re.MULTILINE\<close> they match at every line), the
  quantifiers \<^verbatim>\<open>* + ?\<close> and their lazy forms on a single-character atom, and capturing
  groups. A pattern or replacement outside the fragment (alternation, counted repetition,
  quantified groups, back-references in patterns, other letter escapes) is not given a
  meaning: the parsers return \<open>None\<close> and \<open>py_re_sub\<close> returns \<open>Outside_fragment\<close>, which
  stands for no behaviour of Python. Every pair of the three patch tables is inside the
  fragment (\<open>patch_tables_in_fragment\<close> below).
\<close>

text \<open>  Syntax trees. A member of a bracketed set is a character or one of the classes
  \<^verbatim>\<open>\s\<close>, \<^verbatim>\<open>\S\<close>; an atom matches exactly one character; an item is an atom, a
  quantified atom (with its greediness), a line anchor or a numbered capturing group.\<close>

datatype cls = CChar char | CSpace | CNonSpace

datatype atom = Chr char | AnyChar | CharSet bool "cls list"

datatype quant = Star | Plus | Opt

datatype item = One atom | Rep atom quant bool | Bol | Eol | Grp nat "item list"

datatype token = TAtom atom | TStar | TPlus | TQuest | TOpen | TClose | TBol | TEol

text \<open>  \<^verbatim>\<open>\s\<close> on \<^verbatim>\<open>str\<close> patterns is Unicode white space; below code point 256 these
  are the characters listed. Only ASCII letters and digits are special after a backslash.\<close>

definition is_space :: "char \<Rightarrow> bool" where
  "is_space c = (c \<in> set [CHR 0x09, CHR 0x0A, CHR 0x0B, CHR 0x0C, CHR 0x0D,
                           CHR 0x1C, CHR 0x1D, CHR 0x1E, CHR 0x1F, CHR 0x20, CHR 0x85, CHR 0xA0])"

definition is_alnum :: "char \<Rightarrow> bool" where
  "is_alnum c = (c \<in> set (''abcdefghijklmnopqrstuvwxyz'' @ ''ABCDEFGHIJKLMNOPQRSTUVWXYZ'' @ ''0123456789''))"

fun cls_matches :: "cls \<Rightarrow> char \<Rightarrow> bool" where
  "cls_matches (CChar d) c = (d = c)"
| "cls_matches CSpace c = is_space c"
| "cls_matches CNonSpace c = (\<not> is_space c)"

fun atom_matches :: "atom \<Rightarrow> char \<Rightarrow> bool" where
  "atom_matches (Chr d) c = (d = c)"
| "atom_matches AnyChar c = True"
| "atom_matches (CharSet neg ms) c = (list_ex (\<lambda>m. cls_matches m c) ms \<noteq> neg)"

text \<open>  A backslash followed by \<open>e\<close>, inside a set and outside. A letter or digit other than
  the five modelled ones is outside the fragment (Python rejects some and gives others a
  meaning of their own); every other character stands for itself.\<close>

definition escape_cls :: "char \<Rightarrow> cls option" where
  "escape_cls e =
     (if e = CHR ''n'' then Some (CChar LF)
      else if e = CHR ''t'' then Some (CChar (CHR 0x09))
      else if e = CHR ''r'' then Some (CChar CR)
      else if e = CHR ''s'' then Some CSpace
      else if e = CHR ''S'' then Some CNonSpace
      else if is_alnum e then None
      else Some (CChar e))"

definition escape_top :: "char \<Rightarrow> atom option" where
  "escape_top e =
     (if e = CHR ''n'' then Some (Chr LF)
      else if e = CHR ''t'' then Some (Chr (CHR 0x09))
      else if e = CHR ''r'' then Some (Chr CR)
      else if e = CHR ''s'' then Some (CharSet False [CSpace])
      else if e = CHR ''S'' then Some (CharSet False [CNonSpace])
      else if is_alnum e then None
      else Some (Chr e))"

definition cons_tok :: "token \<Rightarrow> token list option \<Rightarrow> token list option" where
  "cons_tok t r = map_option ((#) t) r"

text \<open>  The lexer. \<open>lex_top\<close> reads a pattern; \<open>lex_cls neg acc first\<close> reads the inside of a
  bracketed set, where \<open>first\<close> says that no member has been read yet: there
  \<^verbatim>\<open>]\<close> is a member and does not close the set. An opening brace is a literal unless a
  digit or a comma follows (then it may start a counted repetition, which is outside the
  fragment); \<^verbatim>\<open>(?\<close>, \<^verbatim>\<open>|\<close> and an unescaped \<^verbatim>\<open>-\<close> in a set are outside the
  fragment as well.\<close>

fun lex_top :: "string \<Rightarrow> token list option"
  and lex_cls :: "bool \<Rightarrow> cls list \<Rightarrow> bool \<Rightarrow> string \<Rightarrow> token list option" where
  "lex_top [] = Some []"
| "lex_top (c # cs) =
     (if c = bsl then
        (case cs of [] \<Rightarrow> None
         | e # cs' \<Rightarrow> (case escape_top e of None \<Rightarrow> None
                        | Some a \<Rightarrow> cons_tok (TAtom a) (lex_top cs')))
      else if c = CHR ''['' then
        (case cs of [] \<Rightarrow> None
         | d # cs' \<Rightarrow> if d = CHR ''^'' then lex_cls True [] True cs'
                       else lex_cls False [] True cs)
      else if c = CHR ''.'' then cons_tok (TAtom AnyChar) (lex_top cs)
      else if c = CHR ''^'' then cons_tok TBol (lex_top cs)
      else if c = CHR ''$'' then cons_tok TEol (lex_top cs)
      else if c = CHR ''*'' then cons_tok TStar (lex_top cs)
      else if c = CHR ''+'' then cons_tok TPlus (lex_top cs)
      else if c = CHR ''?'' then cons_tok TQuest (lex_top cs)
      else if c = CHR ''('' then
        (case cs of [] \<Rightarrow> cons_tok TOpen (lex_top cs)
         | d # cs' \<Rightarrow> if d = CHR ''?'' then None else cons_tok TOpen (lex_top cs))
      else if c = CHR '')'' then cons_tok TClose (lex_top cs)
      else if c = CHR ''|'' then None
      else if c = CHR ''{'' then
        (case cs of [] \<Rightarrow> cons_tok (TAtom (Chr c)) (lex_top cs)
         | d # cs' \<Rightarrow> if d \<in> set ''0123456789,'' then None
                       else cons_tok (TAtom (Chr c)) (lex_top cs))
      else cons_tok (TAtom (Chr c)) (lex_top cs))"
| "lex_cls neg acc first [] = None"
| "lex_cls neg acc first (c # cs) =
     (if c = CHR '']'' then
        (if first then lex_cls neg (CChar c # acc) False cs
         else cons_tok (TAtom (CharSet neg (rev acc))) (lex_top cs))
      else if c = bsl then
        (case cs of [] \<Rightarrow> None
         | e # cs' \<Rightarrow> (case escape_cls e of None \<Rightarrow> None
                        | Some m \<Rightarrow> lex_cls neg (m # acc) False cs'))
      else if c = CHR ''-'' then None
      else lex_cls neg (CChar c # acc) False cs)"

text \<open>  From tokens to items. A quantifier belongs to the atom before it, and a question mark
  after it makes it lazy; a quantifier anywhere else (at the start, after another
  quantifier, after an anchor or a group) ends the parse with \<open>None\<close>. Groups are
  numbered by their opening parenthesis, from 1; \<open>stk\<close> holds, for every group still open,
  its number and the items read before it.\<close>

fun build :: "token list \<Rightarrow> nat \<Rightarrow> item list \<Rightarrow> (nat \<times> item list) list \<Rightarrow> (item list \<times> nat) option" where
  "build [] n cur [] = Some (rev cur, n)"
| "build [] n cur (f # stk) = None"
| "build (TAtom a # TStar # TQuest # ts) n cur stk = build ts n (Rep a Star False # cur) stk"
| "build (TAtom a # TPlus # TQuest # ts) n cur stk = build ts n (Rep a Plus False # cur) stk"
| "build (TAtom a # TQuest # TQuest # ts) n cur stk = build ts n (Rep a Opt False # cur) stk"
| "build (TAtom a # TStar # ts) n cur stk = build ts n (Rep a Star True # cur) stk"
| "build (TAtom a # TPlus # ts) n cur stk = build ts n (Rep a Plus True # cur) stk"
| "build (TAtom a # TQuest # ts) n cur stk = build ts n (Rep a Opt True # cur) stk"
| "build (TAtom a # ts) n cur stk = build ts n (One a # cur) stk"
| "build (TBol # ts) n cur stk = build ts n (Bol # cur) stk"
| "build (TEol # ts) n cur stk = build ts n (Eol # cur) stk"
| "build (TOpen # ts) n cur stk = build ts (Suc n) [] ((Suc n, cur) # stk)"
| "build (TClose # ts) n cur [] = None"
| "build (TClose # ts) n cur ((g, outer) # stk) = build ts n (Grp g (rev cur) # outer) stk"
| "build (TStar # ts) n cur stk = None"
| "build (TPlus # ts) n cur stk = None"
| "build (TQuest # ts) n cur stk = None"

definition parse_pattern :: "string \<Rightarrow> (item list \<times> nat) option" where
  "parse_pattern pattern =
     (case lex_top pattern of None \<Rightarrow> None | Some ts \<Rightarrow> build ts 0 [] [])"


text \<open>  The backtracking matcher. A state is the text consumed since the start of the match
  attempt (last character first), the text still ahead, and the groups captured so far
  (most recent first). Every function returns the states it can reach, in the order in
  which Python's backtracking tries them: the head of the list is the match Python
  finds. A greedy star tries the longest run first, a lazy one the shortest.\<close>

type_synonym captures = "(nat \<times> string) list"
type_synonym mstate = "string \<times> string \<times> captures"

fun star_greedy :: "atom \<Rightarrow> captures \<Rightarrow> string \<Rightarrow> string \<Rightarrow> mstate list" where
  "star_greedy a caps dn [] = [(dn, [], caps)]"
| "star_greedy a caps dn (c # cs) =
     (if atom_matches a c then star_greedy a caps (c # dn) cs @ [(dn, c # cs, caps)]
      else [(dn, c # cs, caps)])"

fun star_lazy :: "atom \<Rightarrow> captures \<Rightarrow> string \<Rightarrow> string \<Rightarrow> mstate list" where
  "star_lazy a caps dn [] = [(dn, [], caps)]"
| "star_lazy a caps dn (c # cs) =
     (if atom_matches a c then (dn, c # cs, caps) # star_lazy a caps (c # dn) cs
      else [(dn, c # cs, caps)])"

definition one_char :: "atom \<Rightarrow> mstate \<Rightarrow> mstate list" where
  "one_char a st =
     (case st of (dn, rest, caps) \<Rightarrow>
        (case rest of [] \<Rightarrow> []
         | c # cs \<Rightarrow> if atom_matches a c then [(c # dn, cs, caps)] else []))"

definition star :: "bool \<Rightarrow> atom \<Rightarrow> mstate \<Rightarrow> mstate list" where
  "star greedy a st =
     (case st of (dn, rest, caps) \<Rightarrow>
        if greedy then star_greedy a caps dn rest else star_lazy a caps dn rest)"

fun repeat :: "atom \<Rightarrow> quant \<Rightarrow> bool \<Rightarrow> mstate \<Rightarrow> mstate list" where
  "repeat a Star greedy st = star greedy a st"
| "repeat a Plus greedy st = concat (map (star greedy a) (one_char a st))"
| "repeat a Opt greedy st = (if greedy then one_char a st @ [st] else st # one_char a st)"

text \<open>  The character before the current position: \<open>prev0\<close> is the one before the start of the
  match attempt. With \<^verbatim>\<open>re.MULTILINE\<close>, \<^verbatim>\<open>^\<close> matches at the start of the text and
  after every line feed, \<^verbatim>\<open>$\<close> at the end of the text and before every line feed.\<close>

definition prev_char :: "char option \<Rightarrow> string \<Rightarrow> char option" where
  "prev_char prev0 dn = (case dn of [] \<Rightarrow> prev0 | c # cs \<Rightarrow> Some c)"

definition set_group :: "nat \<Rightarrow> string \<Rightarrow> mstate \<Rightarrow> mstate" where
  "set_group g dn st =
     (case st of (dn', rest', caps') \<Rightarrow>
        (dn', rest', (g, rev (take (length dn' - length dn) dn')) # caps'))"

fun m_item :: "char option \<Rightarrow> item \<Rightarrow> mstate \<Rightarrow> mstate list"
  and m_items :: "char option \<Rightarrow> item list \<Rightarrow> mstate \<Rightarrow> mstate list" where
  "m_item prev0 (One a) st = one_char a st"
| "m_item prev0 (Rep a q greedy) st = repeat a q greedy st"
| "m_item prev0 Bol st =
     (case prev_char prev0 (fst st) of None \<Rightarrow> [st]
      | Some c \<Rightarrow> if c = LF then [st] else [])"
| "m_item prev0 Eol st =
     (case fst (snd st) of [] \<Rightarrow> [st]
      | c # cs \<Rightarrow> if c = LF then [st] else [])"
| "m_item prev0 (Grp g its) st = map (set_group g (fst st)) (m_items prev0 its st)"
| "m_items prev0 [] st = [st]"
| "m_items prev0 (it # its) st = concat (map (m_items prev0 its) (m_item prev0 it st))"

text \<open>  The match at one position. \<open>must_advance\<close> rules out the empty match, as CPython does
  at the position where the previous match was empty; the next alternative of the
  backtracking is taken instead.\<close>

definition match_at :: "item list \<Rightarrow> char option \<Rightarrow> bool \<Rightarrow> string \<Rightarrow> (string \<times> captures \<times> string) option" where
  "match_at r prev must_advance s =
     (case find (\<lambda>st. \<not> must_advance \<or> fst st \<noteq> []) (m_items prev r ([], s, [])) of
        None \<Rightarrow> None
      | Some (dn, rest, caps) \<Rightarrow> Some (rev dn, caps, rest))"

text \<open>  \<^verbatim>\<open>re.search\<close> from a position: the leftmost position with a match, the end of the
  text included. The result is the text skipped, the text matched, the groups and the
  text after the match. Only the first position is subject to \<open>must_advance\<close>.\<close>

fun search_from :: "item list \<Rightarrow> char option \<Rightarrow> bool \<Rightarrow> string \<Rightarrow> string
                      \<Rightarrow> (string \<times> string \<times> captures \<times> string) option" where
  "search_from r prev must_advance skipped [] =
     (case match_at r prev must_advance [] of
        Some (mt, caps, rest) \<Rightarrow> Some (rev skipped, mt, caps, rest)
      | None \<Rightarrow> None)"
| "search_from r prev must_advance skipped (c # cs) =
     (case match_at r prev must_advance (c # cs) of
        Some (mt, caps, rest) \<Rightarrow> Some (rev skipped, mt, caps, rest)
      | None \<Rightarrow> search_from r (Some c) False (c # skipped) cs)"

text \<open>  Replacement templates: \<^verbatim>\<open>\n \t \r \\\<close>, a group reference \<^verbatim>\<open>\1\<close> to
  \<^verbatim>\<open>\9\<close> (it must name a group of the pattern), a backslash before any other
  non-alphanumeric character (both characters are kept, as Python does), and plain
  characters. Python compiles the template before it searches, so an ill-formed template
  is an error whether or not the pattern matches.\<close>

datatype tpiece = TChr char | TRef nat

definition digit_value :: "char \<Rightarrow> nat option" where
  "digit_value c = map_of (zip ''123456789'' [1, 2, 3, 4, 5, 6, 7, 8, 9]) c"

definition cons_tp :: "tpiece list \<Rightarrow> tpiece list option \<Rightarrow> tpiece list option" where
  "cons_tp ps r = map_option ((@) ps) r"

fun parse_template :: "string \<Rightarrow> nat \<Rightarrow> tpiece list option" where
  "parse_template [] ng = Some []"
| "parse_template [c] ng = (if c = bsl then None else Some [TChr c])"
| "parse_template (c # e # t) ng =
     (if c \<noteq> bsl then cons_tp [TChr c] (parse_template (e # t) ng)
      else if e = CHR ''n'' then cons_tp [TChr LF] (parse_template t ng)
      else if e = CHR ''t'' then cons_tp [TChr (CHR 0x09)] (parse_template t ng)
      else if e = CHR ''r'' then cons_tp [TChr CR] (parse_template t ng)
      else if e = bsl then cons_tp [TChr bsl] (parse_template t ng)
      else (case digit_value e of
              Some d \<Rightarrow>
                (if (case t of [] \<Rightarrow> False | x # xs \<Rightarrow> x \<in> set ''0123456789'') then None
                 else if ng < d then None
                 else cons_tp [TRef d] (parse_template t ng))
            | None \<Rightarrow>
                if is_alnum e then None
                else cons_tp [TChr bsl, TChr e] (parse_template t ng)))"

fun expand_piece :: "captures \<Rightarrow> tpiece \<Rightarrow> string" where
  "expand_piece caps (TChr c) = [c]"
| "expand_piece caps (TRef n) = (case map_of caps n of None \<Rightarrow> [] | Some txt \<Rightarrow> txt)"

definition expand :: "tpiece list \<Rightarrow> captures \<Rightarrow> string" where
  "expand tm caps = concat (map (expand_piece caps) tm)"


subsection \<open>A match only consumes text: what the termination of the substitution loop needs\<close>

definition consumes :: "mstate \<Rightarrow> mstate \<Rightarrow> bool" where
  "consumes st st' =
     (rev (fst st') @ fst (snd st') = rev (fst st) @ fst (snd st)
      \<and> length (fst (snd st')) \<le> length (fst (snd st)))"

lemma consumes_refl: "consumes st st"
  by (simp add: consumes_def)

lemma consumes_trans: "consumes a b \<Longrightarrow> consumes b c \<Longrightarrow> consumes a c"
  by (simp add: consumes_def)

lemma star_greedy_consumes:
  "st' \<in> set (star_greedy a caps dn rest) \<Longrightarrow> consumes (dn, rest, caps) st'"
proof (induction rest arbitrary: dn)
  case Nil
  then show ?case by (simp add: consumes_def)
next
  case (Cons c cs)
  show ?case
  proof (cases "atom_matches a c \<and> st' \<in> set (star_greedy a caps (c # dn) cs)")
    case True
    then have "consumes (c # dn, cs, caps) st'" using Cons.IH by blast
    then show ?thesis by (simp add: consumes_def)
  next
    case False
    with Cons.prems have "st' = (dn, c # cs, caps)" by (auto split: if_splits)
    then show ?thesis by (simp add: consumes_def)
  qed
qed

lemma star_lazy_consumes:
  "st' \<in> set (star_lazy a caps dn rest) \<Longrightarrow> consumes (dn, rest, caps) st'"
proof (induction rest arbitrary: dn)
  case Nil
  then show ?case by (simp add: consumes_def)
next
  case (Cons c cs)
  show ?case
  proof (cases "atom_matches a c \<and> st' \<in> set (star_lazy a caps (c # dn) cs)")
    case True
    then have "consumes (c # dn, cs, caps) st'" using Cons.IH by blast
    then show ?thesis by (simp add: consumes_def)
  next
    case False
    with Cons.prems have "st' = (dn, c # cs, caps)" by (auto split: if_splits)
    then show ?thesis by (simp add: consumes_def)
  qed
qed

lemma one_char_consumes: "st' \<in> set (one_char a st) \<Longrightarrow> consumes st st'"
  by (cases st) (auto simp: one_char_def consumes_def split: list.splits if_splits)

lemma star_consumes: "st' \<in> set (star greedy a st) \<Longrightarrow> consumes st st'"
  by (cases st) (auto simp: star_def dest: star_greedy_consumes star_lazy_consumes split: if_splits)

lemma repeat_consumes: "st' \<in> set (repeat a q greedy st) \<Longrightarrow> consumes st st'"
proof (cases q)
  case Star
  assume "st' \<in> set (repeat a q greedy st)"
  with Star show ?thesis by (simp add: star_consumes)
next
  case Plus
  assume "st' \<in> set (repeat a q greedy st)"
  with Plus obtain m where "m \<in> set (one_char a st)" "st' \<in> set (star greedy a m)"
    by auto
  then show ?thesis
    using one_char_consumes star_consumes consumes_trans by blast
next
  case Opt
  assume "st' \<in> set (repeat a q greedy st)"
  with Opt have "st' = st \<or> st' \<in> set (one_char a st)"
    by (auto split: if_splits)
  then show ?thesis
    using one_char_consumes consumes_refl by blast
qed

lemma set_group_consumes: "consumes st st' \<Longrightarrow> consumes st (set_group g dn st')"
  by (cases st') (simp add: set_group_def consumes_def)

lemma m_consumes:
  "(\<forall>st'. st' \<in> set (m_item prev0 it st) \<longrightarrow> consumes st st')"
  "(\<forall>st'. st' \<in> set (m_items prev0 its st) \<longrightarrow> consumes st st')"
proof (induction prev0 it st and prev0 its st rule: m_item_m_items.induct)
  case (1 prev0 a st)
  then show ?case by (simp add: one_char_consumes)
next
  case (2 prev0 a q greedy st)
  then show ?case by (simp add: repeat_consumes)
next
  case (3 prev0 st)
  then show ?case by (auto simp: consumes_refl split: option.splits if_splits)
next
  case (4 prev0 st)
  then show ?case by (auto simp: consumes_refl split: list.splits if_splits)
next
  case (5 prev0 g its st)
  then show ?case by (auto simp: set_group_consumes)
next
  case (6 prev0 st)
  then show ?case by (simp add: consumes_refl)
next
  case (7 prev0 it its st)
  show ?case
  proof (intro allI impI)
    fix st'
    assume "st' \<in> set (m_items prev0 (it # its) st)"
    then obtain m where m: "m \<in> set (m_item prev0 it st)" "st' \<in> set (m_items prev0 its m)"
      by auto
    from m(1) have "consumes st m" using "7.IH"(1) by blast
    moreover from m have "consumes m st'" using "7.IH"(2) by blast
    ultimately show "consumes st st'" by (rule consumes_trans)
  qed
qed

lemma find_SomeD: "find P xs = Some x \<Longrightarrow> P x \<and> x \<in> set xs"
  by (induction xs) (auto split: if_splits)

lemma match_at_splits:
  assumes "match_at r prev must_advance s = Some (mt, caps, rest)"
  shows "s = mt @ rest \<and> (must_advance \<longrightarrow> mt \<noteq> [])"
proof -
  from assms obtain dn where
    f: "find (\<lambda>st. \<not> must_advance \<or> fst st \<noteq> []) (m_items prev r ([], s, [])) = Some (dn, rest, caps)"
    and mt: "mt = rev dn"
    by (auto simp: match_at_def split: option.splits)
  from find_SomeD [OF f] have "(dn, rest, caps) \<in> set (m_items prev r ([], s, []))"
    and "\<not> must_advance \<or> dn \<noteq> []"
    by simp_all
  with m_consumes(2) [of prev r "([], s, [])"] mt show ?thesis
    by (auto simp: consumes_def)
qed

lemma search_from_splits:
  "search_from r prev must_advance skipped s = Some (pre, mt, caps, rest) \<Longrightarrow>
     rev skipped @ s = pre @ mt @ rest
     \<and> length skipped \<le> length pre
     \<and> (must_advance \<longrightarrow> length skipped < length pre \<or> mt \<noteq> [])"
proof (induction s arbitrary: prev must_advance skipped)
  case Nil
  then show ?case
    by (auto split: option.splits dest: match_at_splits)
next
  case (Cons c cs)
  show ?case
  proof (cases "match_at r prev must_advance (c # cs)")
    case None
    with Cons.prems have "search_from r (Some c) False (c # skipped) cs = Some (pre, mt, caps, rest)"
      by simp
    from Cons.IH [OF this] show ?thesis by auto
  next
    case (Some m)
    with Cons.prems show ?thesis
      by (cases m) (auto dest: match_at_splits)
  qed
qed

subsection \<open>The substitution loop\<close>

text \<open>  The loop of \<^verbatim>\<open>re.sub\<close> (CPython 3.7 and later): search from the end of the previous
  match; copy the skipped text and the expanded template; go on after the match, where
  an empty match is not allowed if the match just made was empty. An empty match
  directly after a non-empty one is replaced too. The loop ends when the search fails.\<close>

function sub_loop :: "item list \<Rightarrow> tpiece list \<Rightarrow> char option \<Rightarrow> bool \<Rightarrow> string \<Rightarrow> string" where
  "sub_loop r tm prev must_advance s =
     (case search_from r prev must_advance [] s of
        None \<Rightarrow> s
      | Some (pre, mt, caps, rest) \<Rightarrow>
          pre @ expand tm caps @
          sub_loop r tm (if pre @ mt = [] then prev else Some (last (pre @ mt))) (mt = []) rest)"
  by pat_completeness auto
termination
proof (relation "measure (\<lambda>(r, tm, prev, must_advance, s). 2 * length s + (if must_advance then 0 else 1))")
  show "wf (measure (\<lambda>(r, tm, prev, must_advance, s). 2 * length s + (if must_advance then 0 else 1)))"
    by simp
next
  fix r :: "item list" and tm :: "tpiece list" and prev :: "char option" and must_advance :: bool
    and s x2 pre y mt ya caps rest
  assume "search_from r prev must_advance [] s = Some x2" "(pre, y) = x2" "(mt, ya) = y" "(caps, rest) = ya"
  then have "search_from r prev must_advance [] s = Some (pre, mt, caps, rest)"
    by simp
  from search_from_splits [OF this]
  have s: "s = pre @ mt @ rest" and adv: "must_advance \<longrightarrow> pre \<noteq> [] \<or> mt \<noteq> []"
    by auto
  have "pre @ mt \<noteq> [] \<Longrightarrow> length rest < length s"
    using s by (cases pre; cases mt) simp_all
  moreover have "pre @ mt = [] \<Longrightarrow> rest = s \<and> \<not> must_advance"
    using s adv by simp
  ultimately show "((r, tm, if pre @ mt = [] then prev else Some (last (pre @ mt)), mt = [], rest),
              (r, tm, prev, must_advance, s))
             \<in> measure (\<lambda>(r, tm, prev, must_advance, s). 2 * length s + (if must_advance then 0 else 1))"
    by (cases "pre @ mt = []") auto
qed

text \<open>  \<^verbatim>\<open>re.sub(pattern, replacement, content, flags=re.MULTILINE | re.DOTALL)\<close> on the
  fragment.\<close>

definition py_re_sub :: re_sub_fn where
  "py_re_sub pattern replacement content =
     (case parse_pattern pattern of
        None \<Rightarrow> Inl (Outside_fragment pattern replacement)
      | Some (r, ngroups) \<Rightarrow>
          (case parse_template replacement ngroups of
             None \<Rightarrow> Inl (Outside_fragment pattern replacement)
           | Some tm \<Rightarrow> Inr (sub_loop r tm None False content)))"



text \<open>\<^verbatim>\<open>re.search(pattern, content, flags=re.MULTILINE | re.DOTALL) is not None\<close>,
  for a pattern of the fragment.\<close>

definition re_matches :: "string \<Rightarrow> string \<Rightarrow> bool" where
  "re_matches pattern content =
     (case parse_pattern pattern of
        None \<Rightarrow> False
      | Some (r, ngroups) \<Rightarrow> search_from r None False [] content \<noteq> None)"

text \<open>A (pattern, replacement) pair the model gives a meaning to.\<close>

definition in_fragment :: "string \<Rightarrow> string \<Rightarrow> bool" where
  "in_fragment pattern replacement =
     (case parse_pattern pattern of
        None \<Rightarrow> False
      | Some (r, ngroups) \<Rightarrow> parse_template replacement ngroups \<noteq> None)"

section \<open>Auxiliary facts\<close>

subsection \<open>\<open>fix_file\<close> case by case, for every \<open>re_sub\<close>\<close>

lemma foldl_subst_step_Inl: "foldl (subst_step re_sub) (Inl e) fixes = Inl e"
  by (induction "fixes") (simp_all add: subst_step_def)

lemma apply_fixes_is_fold: "apply_fixes re_sub fixes content = subst_fold re_sub fixes content"
proof (induction "fixes" arbitrary: content)
  case Nil
  show ?case by (simp add: subst_fold_def)
next
  case (Cons pr rest)
  obtain pattern replacement where pr: "pr = (pattern, replacement)"
    by (cases pr)
  show ?case
  proof (cases "re_sub pattern replacement content")
    case (Inl e)
    then show ?thesis
      by (simp add: pr subst_fold_def subst_step_def foldl_subst_step_Inl)
  next
    case (Inr c)
    with Cons.IH [of c] show ?thesis
      by (simp add: pr subst_fold_def subst_step_def)
  qed
qed

lemma fix_file_missing:
  assumes "files w filepath = None"
  shows "fix_file re_sub filepath fixes w =
           (Inr (), log_event (Print (''File not found: '' @ filepath)) (log_event (Stat filepath) w))"
  using assms by (simp add: fix_file_def bind_io_def os_path_exists_def py_print_def)

lemma fix_file_directory:
  assumes "files w filepath = Some Dir"
  shows "fix_file re_sub filepath fixes w =
           (Inl (IsADirectoryError filepath), log_event (Stat filepath) w)"
  using assms
  by (simp add: fix_file_def bind_io_def os_path_exists_def open_read_def log_event_def)

lemma fix_file_existing:
  assumes "files w filepath = Some (File raw)"
  shows "fix_file re_sub filepath fixes w =
           (case apply_fixes re_sub fixes (universal_newlines raw) of
              Inl e \<Rightarrow> (Inl e, log_event (Read filepath) (log_event (Stat filepath) w))
            | Inr content \<Rightarrow>
                if content \<noteq> universal_newlines raw
                then (Inr (),
                      log_event (Print (''Fixed: '' @ filepath))
                        (log_event (Write filepath content)
                          ((log_event (Read filepath) (log_event (Stat filepath) w))
                             \<lparr>files := (files w)(filepath \<mapsto> File content)\<rparr>)))
                else (Inr (), log_event (Read filepath) (log_event (Stat filepath) w)))"
  using assms
  by (simp add: fix_file_def bind_io_def os_path_exists_def open_read_def open_write_def
      py_print_def lift_io_def return_io_def log_event_def split: sum.splits)

lemma trace_log_event [simp]: "trace (log_event e w) = trace w @ [e]"
  by (simp add: log_event_def)

lemma files_log_event [simp]: "files (log_event e w) = files w"
  by (simp add: log_event_def)

lemma new_events_appended: "trace w' = trace w @ evs \<Longrightarrow> new_events w w' = evs"
  by (simp add: new_events_def)

lemma fix_file_existing_fold:
  assumes "files w filepath = Some (File raw)"
  shows "(case subst_fold re_sub fixes (universal_newlines raw) of
            Inl e \<Rightarrow>
              fst (fix_file re_sub filepath fixes w) = Inl e
              \<and> files (snd (fix_file re_sub filepath fixes w)) = files w
              \<and> new_events w (snd (fix_file re_sub filepath fixes w)) = [Stat filepath, Read filepath]
          | Inr content \<Rightarrow>
              fst (fix_file re_sub filepath fixes w) = Inr ()
              \<and> files (snd (fix_file re_sub filepath fixes w))
                  = (if content \<noteq> universal_newlines raw
                     then (files w)(filepath \<mapsto> File content) else files w)
              \<and> new_events w (snd (fix_file re_sub filepath fixes w))
                  = (if content \<noteq> universal_newlines raw
                     then [Stat filepath, Read filepath, Write filepath content,
                           Print (''Fixed: '' @ filepath)]
                     else [Stat filepath, Read filepath]))"
proof (cases "subst_fold re_sub fixes (universal_newlines raw)")
  case (Inl e)
  then have "apply_fixes re_sub fixes (universal_newlines raw) = Inl e"
    by (simp add: apply_fixes_is_fold)
  with fix_file_existing [OF assms, of re_sub "fixes"] Inl show ?thesis
    by (simp add: new_events_def)
next
  case (Inr content)
  then have "apply_fixes re_sub fixes (universal_newlines raw) = Inr content"
    by (simp add: apply_fixes_is_fold)
  with fix_file_existing [OF assms, of re_sub "fixes"] Inr show ?thesis
    by (simp add: new_events_def)
qed

subsection \<open>The substitution model\<close>

lemma sub_loop_no_match:
  "search_from r prev must_advance [] s = None \<Longrightarrow> sub_loop r tm prev must_advance s = s"
  by (subst sub_loop.simps) simp

lemma py_re_sub_no_match:
  assumes "in_fragment pattern replacement" and "\<not> re_matches pattern content"
  shows "py_re_sub pattern replacement content = Inr content"
proof -
  from assms(1) obtain r ngroups tm where
    p: "parse_pattern pattern = Some (r, ngroups)" and t: "parse_template replacement ngroups = Some tm"
    by (auto simp: in_fragment_def split: option.splits)
  from assms(2) p have "search_from r None False [] content = None"
    by (cases "search_from r None False [] content") (auto simp: re_matches_def)
  then show ?thesis
    by (simp add: py_re_sub_def p t sub_loop_no_match)
qed

lemma apply_fixes_no_match:
  "\<forall>(pattern, replacement) \<in> set fixes. in_fragment pattern replacement \<and> \<not> re_matches pattern content
     \<Longrightarrow> apply_fixes py_re_sub fixes content = Inr content"
proof (induction "fixes")
  case Nil
  show ?case by simp
next
  case (Cons pr rest)
  obtain pattern replacement where pr: "pr = (pattern, replacement)"
    by (cases pr)
  with Cons.prems have "py_re_sub pattern replacement content = Inr content"
    by (simp add: py_re_sub_no_match)
  moreover from Cons have "apply_fixes py_re_sub rest content = Inr content"
    by simp
  ultimately show ?case by (simp add: pr)
qed

lemma patch_tables_in_fragment:
  "list_all (\<lambda>(filepath, fixes). list_all (\<lambda>(pattern, replacement). in_fragment pattern replacement) fixes)
     (fix_eslint_patches @ fix_all_eslint_patches @ fix_final_eslint_patches)"
  by code_simp

lemma server_fixes_in_table: "(server_ts, server_fixes) \<in> set fix_eslint_patches"
  by (simp add: server_ts_def server_fixes_def fix_eslint_patches_def)

lemma server_fixes_fold:
  "subst_fold py_re_sub server_fixes (universal_newlines (''} catch (error) {'' @ [CR, LF]))
     = Inr ''} catch (_error) {\<newline>''"
  unfolding server_fixes_def by code_simp

lemma server_fixes_match:
  "\<exists>(pattern, replacement) \<in> set server_fixes.
      re_matches pattern (universal_newlines (''} catch (error) {'' @ [CR, LF]))"
  unfolding server_fixes_def by code_simp

lemma xss_fixes_fragment:
  "\<forall>(pattern, replacement) \<in> set (snd (fix_final_eslint_patches ! 1)).
     in_fragment pattern replacement
     \<and> \<not> re_matches pattern (universal_newlines (''} catch (error) {'' @ [CR, LF]))"
  by code_simp

lemma chat_fixes_fold:
  "re_matches (fst (hd (snd (hd fix_final_eslint_patches)))) (universal_newlines ''} catch (error) {'')
   \<and> subst_fold py_re_sub (snd (hd fix_final_eslint_patches)) (universal_newlines ''} catch (error) {'')
       = Inr (universal_newlines ''} catch (error) {'')"
  by code_simp

subsection \<open>Writing and reading back\<close>

lemma universal_newlines_no_cr: "CR \<notin> set s \<Longrightarrow> universal_newlines s = s"
  by (induction s rule: universal_newlines.induct) auto

lemma eslint_config_no_cr: "CR \<notin> set eslint_config"
  by (simp add: eslint_config_def)

lemma eslintignore_no_cr: "CR \<notin> set eslintignore"
  by (simp add: eslintignore_def)

lemma write_then_read:
  assumes "files w p \<noteq> Some Dir"
  shows "bind_io (open_write p s) (\<lambda>u. open_read p) w
           = (Inr (universal_newlines s),
              log_event (Read p) (log_event (Write p s) (w\<lparr>files := (files w)(p \<mapsto> File s)\<rparr>)))"
proof (cases "files w p")
  case None
  then show ?thesis
    by (simp add: bind_io_def open_write_def open_read_def log_event_def)
next
  case (Some nd)
  with assms obtain raw where "nd = File raw" by (cases nd) auto
  with Some show ?thesis
    by (simp add: bind_io_def open_write_def open_read_def log_event_def)
qed

lemma write_read_translates_cr:
  "fst (bind_io (open_write ''a.txt'' [CHR ''a'', CR, LF]) (\<lambda>u. open_read ''a.txt'') empty_world)
     = Inr [CHR ''a'', LF]"
  by (simp add: bind_io_def open_write_def open_read_def log_event_def empty_world_def)

subsection \<open>Edits start no subprocess\<close>

lemma quietI:
  assumes "\<And>w. \<exists>evs. trace (snd (m w)) = trace w @ evs \<and> (\<forall>e \<in> set evs. \<not> is_run e)"
  shows "quiet m"
  using assms by (simp add: quiet_def)

lemma quietD:
  assumes "quiet m" and "m w = (r, w1)"
  shows "\<exists>evs. trace w1 = trace w @ evs \<and> (\<forall>e \<in> set evs. \<not> is_run e)"
proof -
  from assms(1) obtain evs where "trace (snd (m w)) = trace w @ evs" "\<forall>e \<in> set evs. \<not> is_run e"
    unfolding quiet_def by blast
  with assms(2) show ?thesis by auto
qed

lemma quiet_return: "quiet (return_io x)"
  by (simp add: quiet_def return_io_def)

lemma quiet_lift: "quiet (lift_io r)"
  by (simp add: quiet_def lift_io_def)

lemma quiet_print: "quiet (py_print s)"
  by (simp add: quiet_def py_print_def)

lemma quiet_exists: "quiet (os_path_exists p)"
  by (simp add: quiet_def os_path_exists_def)

lemma quiet_read: "quiet (open_read p)"
  by (auto simp: quiet_def open_read_def split: option.splits node.splits)

lemma quiet_write: "quiet (open_write p s)"
  by (auto simp: quiet_def open_write_def log_event_def split: option.splits node.splits)

lemma quiet_remove: "quiet (os_remove p)"
  by (auto simp: quiet_def os_remove_def log_event_def split: option.splits node.splits)

lemma quiet_bind:
  assumes "quiet m" and "\<And>x. quiet (f x)"
  shows "quiet (bind_io m f)"
proof (rule quietI)
  fix w
  obtain r w1 where m: "m w = (r, w1)" by (cases "m w")
  from quietD [OF assms(1) m] obtain evs1 where
    e1: "trace w1 = trace w @ evs1" "\<forall>e \<in> set evs1. \<not> is_run e"
    by blast
  show "\<exists>evs. trace (snd (bind_io m f w)) = trace w @ evs \<and> (\<forall>e \<in> set evs. \<not> is_run e)"
  proof (cases r)
    case (Inl e)
    with m e1 show ?thesis by (simp add: bind_io_def)
  next
    case (Inr x)
    from assms(2) [of x] obtain evs2 where
      e2: "trace (snd (f x w1)) = trace w1 @ evs2" "\<forall>e \<in> set evs2. \<not> is_run e"
      unfolding quiet_def by blast
    have "trace (snd (bind_io m f w)) = trace w @ (evs1 @ evs2)"
      using m Inr e1 e2 by (simp add: bind_io_def)
    moreover have "\<forall>e \<in> set (evs1 @ evs2). \<not> is_run e"
      using e1 e2 by auto
    ultimately show ?thesis by blast
  qed
qed

lemma quiet_run_all: "(\<And>m. m \<in> set ms \<Longrightarrow> quiet m) \<Longrightarrow> quiet (run_all ms)"
  by (induction ms) (simp_all add: quiet_return quiet_bind)

lemma quiet_fix_file: "quiet (fix_file re_sub filepath fixes)"
  unfolding fix_file_def
  by (intro quiet_bind quiet_exists) (simp add: quiet_print quiet_bind quiet_read quiet_lift quiet_write quiet_return)

lemma quiet_apply_patches: "quiet (apply_patches re_sub table)"
  unfolding apply_patches_def
  by (rule quiet_run_all) (auto simp: quiet_fix_file)

lemma quiet_remove_if_exists: "quiet (remove_if_exists p)"
  unfolding remove_if_exists_def
  by (intro quiet_bind quiet_exists) (simp add: quiet_bind quiet_remove quiet_print quiet_return)

lemma quiet_fix_eslint_edits: "quiet (fix_eslint_edits re_sub)"
  by (simp add: fix_eslint_edits_def quiet_apply_patches)

lemma quiet_fix_all_eslint_edits: "quiet (fix_all_eslint_edits re_sub)"
  unfolding fix_all_eslint_edits_def
  by (intro quiet_bind quiet_apply_patches quiet_write quiet_print)

lemma quiet_fix_final_eslint_edits: "quiet (fix_final_eslint_edits re_sub)"
  unfolding fix_final_eslint_edits_def
  by (intro quiet_bind quiet_apply_patches quiet_write quiet_print quiet_remove_if_exists)

lemma lint_and_report_result:
  "lint_and_report proc w1 =
     (case proc lint_command (files w1) of
        Inl e \<Rightarrow> (Inl e, log_event (Print running_eslint) w1)
      | Inr (result, fs') \<Rightarrow>
          (Inr (),
           log_event (Print (stderr result)) (log_event (Print (stdout result))
             (log_event (Run lint_command) ((log_event (Print running_eslint) w1)\<lparr>files := fs'\<rparr>)))))"
  by (simp add: lint_and_report_def bind_io_def py_print_def subprocess_run_def
      split: sum.splits prod.splits)

lemma lint_after_quiet_edits:
  assumes q: "quiet edits" and run: "bind_io edits (\<lambda>u. lint_and_report proc) w = (res, w')"
  shows "(case res of
            Inl e \<Rightarrow> \<forall>ev \<in> set (new_events w w'). \<not> is_run ev
          | Inr u \<Rightarrow>
              (\<exists>w1 result.
                 edits w = (Inr (), w1)
                 \<and> (\<forall>ev \<in> set (new_events w w1). \<not> is_run ev)
                 \<and> proc lint_command (files w1) = Inr (result, files w')
                 \<and> new_events w w' = new_events w w1
                      @ [Print running_eslint, Run lint_command,
                         Print (stdout result), Print (stderr result)]))"
proof -
  obtain r1 w1 where e: "edits w = (r1, w1)" by (cases "edits w")
  from quietD [OF q e] obtain evs1 where
    e1: "trace w1 = trace w @ evs1" "\<forall>ev \<in> set evs1. \<not> is_run ev"
    by blast
  then have n1: "new_events w w1 = evs1" by (simp add: new_events_def)
  show ?thesis
  proof (cases r1)
    case (Inl e')
    with e run have "res = Inl e'" "w' = w1" by (simp_all add: bind_io_def)
    with n1 e1 show ?thesis by simp
  next
    case (Inr u)
    with e run have l: "lint_and_report proc w1 = (res, w')" by (simp add: bind_io_def)
    show ?thesis
    proof (cases "proc lint_command (files w1)")
      case (Inl e')
      with l have "res = Inl e'" "w' = log_event (Print running_eslint) w1"
        by (simp_all add: lint_and_report_result)
      with e1 show ?thesis by (simp add: new_events_def)
    next
      case (Inr pr)
      obtain result fs' where pr: "pr = (result, fs')" by (cases pr)
      with Inr l have res: "res = Inr ()"
        and w': "w' = log_event (Print (stderr result)) (log_event (Print (stdout result))
             (log_event (Run lint_command) ((log_event (Print running_eslint) w1)\<lparr>files := fs'\<rparr>)))"
        by (simp_all add: lint_and_report_result)
      from w' have f: "files w' = fs'" by simp
      from w' e1 have t: "new_events w w' = evs1 @ [Print running_eslint, Run lint_command,
                         Print (stdout result), Print (stderr result)]"
        by (simp add: new_events_def log_event_def)
      from e \<open>r1 = Inr u\<close> have "edits w = (Inr (), w1)" by simp
      with res n1 e1 Inr pr f t show ?thesis by auto
    qed
  qed
qed

subsection \<open>What the edits have done when the lint starts\<close>

lemma bind_io_InrD:
  assumes "bind_io m f w = (Inr y, w1)"
  shows "\<exists>x w2. m w = (Inr x, w2) \<and> f x w2 = (Inr y, w1)"
proof -
  obtain r w2 where m: "m w = (r, w2)" by (cases "m w")
  with assms show ?thesis
    by (cases r) (simp_all add: bind_io_def)
qed

lemma new_events_compose:
  assumes "trace w2 = trace w @ a" and "trace w1 = trace w2 @ b"
  shows "new_events w w1 = new_events w w2 @ new_events w2 w1"
  using assms by (simp add: new_events_def)

lemma quiet_compose:
  assumes "quiet m" and "m w = (r, w2)" and "quiet n" and "n w2 = (r', w1)"
  shows "new_events w w1 = new_events w w2 @ new_events w2 w1"
proof -
  from quietD [OF assms(1,2)] obtain a where a: "trace w2 = trace w @ a" by blast
  from quietD [OF assms(3,4)] obtain b where b: "trace w1 = trace w2 @ b" by blast
  from a b show ?thesis by (rule new_events_compose)
qed

lemma new_events_step:
  assumes "quiet m" and "m w = (r, w2)" and "quiet n" and "n w2 = (r', w1)"
  shows "set (new_events w w2) \<subseteq> set (new_events w w1)"
    and "set (new_events w2 w1) \<subseteq> set (new_events w w1)"
  using quiet_compose [OF assms] by auto

lemma fix_file_frame:
  assumes "q \<noteq> filepath"
  shows "files (snd (fix_file re_sub filepath fixes w)) q = files w q"
proof (cases "files w filepath")
  case None
  from fix_file_missing [OF None, of re_sub "fixes"] show ?thesis by simp
next
  case (Some nd)
  show ?thesis
  proof (cases nd)
    case Dir
    with Some have d: "files w filepath = Some Dir" by simp
    from fix_file_directory [OF d, of re_sub "fixes"] show ?thesis by simp
  next
    case (File raw)
    with Some have f: "files w filepath = Some (File raw)" by simp
    from fix_file_existing_fold [OF f, of re_sub "fixes"] assms show ?thesis
      by (cases "subst_fold re_sub fixes (universal_newlines raw)") auto
  qed
qed

lemma fix_file_patched:
  assumes "fix_file re_sub filepath fixes w = (Inr (), w2)"
  shows "patched re_sub w w2 (filepath, fixes)"
  unfolding patched_def
proof (intro allI impI)
  fix raw
  assume "files w (fst (filepath, fixes)) = Some (File raw)"
  then have f: "files w filepath = Some (File raw)" by simp
  from fix_file_existing_fold [OF f, of re_sub "fixes"] assms
  show "\<exists>content.
           subst_fold re_sub (snd (filepath, fixes)) (universal_newlines raw) = Inr content
           \<and> files w2 (fst (filepath, fixes))
               = Some (File (if content \<noteq> universal_newlines raw then content else raw))
           \<and> (content \<noteq> universal_newlines raw
                \<longrightarrow> Write (fst (filepath, fixes)) content \<in> set (new_events w w2))"
    by (cases "subst_fold re_sub fixes (universal_newlines raw)") (auto simp: f)
qed

lemma patchedD:
  assumes "patched re_sub w w1 entry" and "files w (fst entry) = Some (File raw)"
  obtains content where
    "subst_fold re_sub (snd entry) (universal_newlines raw) = Inr content"
    "files w1 (fst entry) = Some (File (if content \<noteq> universal_newlines raw then content else raw))"
    "content \<noteq> universal_newlines raw \<Longrightarrow> Write (fst entry) content \<in> set (new_events w w1)"
  using assms unfolding patched_def by blast

lemma patchedI:
  assumes "\<And>raw. files w (fst entry) = Some (File raw) \<Longrightarrow>
             \<exists>content.
               subst_fold re_sub (snd entry) (universal_newlines raw) = Inr content
               \<and> files w1 (fst entry)
                   = Some (File (if content \<noteq> universal_newlines raw then content else raw))
               \<and> (content \<noteq> universal_newlines raw
                    \<longrightarrow> Write (fst entry) content \<in> set (new_events w w1))"
  shows "patched re_sub w w1 entry"
  using assms unfolding patched_def by blast

lemma patched_later:
  assumes p: "patched re_sub w w2 entry"
    and same: "files w1 (fst entry) = files w2 (fst entry)"
    and ev: "new_events w w1 = new_events w w2 @ evs"
  shows "patched re_sub w w1 entry"
proof (rule patchedI)
  fix raw
  assume f: "files w (fst entry) = Some (File raw)"
  from patchedD [OF p f] obtain content where c:
    "subst_fold re_sub (snd entry) (universal_newlines raw) = Inr content"
    "files w2 (fst entry) = Some (File (if content \<noteq> universal_newlines raw then content else raw))"
    "content \<noteq> universal_newlines raw \<Longrightarrow> Write (fst entry) content \<in> set (new_events w w2)"
    by blast
  from c(3) ev have "content \<noteq> universal_newlines raw
      \<longrightarrow> Write (fst entry) content \<in> set (new_events w w1)"
    by simp
  with c(1,2) same show "\<exists>content.
               subst_fold re_sub (snd entry) (universal_newlines raw) = Inr content
               \<and> files w1 (fst entry)
                   = Some (File (if content \<noteq> universal_newlines raw then content else raw))
               \<and> (content \<noteq> universal_newlines raw
                    \<longrightarrow> Write (fst entry) content \<in> set (new_events w w1))"
    by (intro exI [of _ content]) simp
qed

lemma patched_earlier:
  assumes p: "patched re_sub w2 w1 entry"
    and same: "files w2 (fst entry) = files w (fst entry)"
    and ev: "new_events w w1 = evs @ new_events w2 w1"
  shows "patched re_sub w w1 entry"
proof (rule patchedI)
  fix raw
  assume "files w (fst entry) = Some (File raw)"
  with same have f: "files w2 (fst entry) = Some (File raw)" by simp
  from patchedD [OF p f] obtain content where c:
    "subst_fold re_sub (snd entry) (universal_newlines raw) = Inr content"
    "files w1 (fst entry) = Some (File (if content \<noteq> universal_newlines raw then content else raw))"
    "content \<noteq> universal_newlines raw \<Longrightarrow> Write (fst entry) content \<in> set (new_events w2 w1)"
    by blast
  from c(3) ev have "content \<noteq> universal_newlines raw
      \<longrightarrow> Write (fst entry) content \<in> set (new_events w w1)"
    by simp
  with c(1,2) show "\<exists>content.
               subst_fold re_sub (snd entry) (universal_newlines raw) = Inr content
               \<and> files w1 (fst entry)
                   = Some (File (if content \<noteq> universal_newlines raw then content else raw))
               \<and> (content \<noteq> universal_newlines raw
                    \<longrightarrow> Write (fst entry) content \<in> set (new_events w w1))"
    by (intro exI [of _ content]) simp
qed

lemma apply_patches_Cons:
  "apply_patches re_sub ((filepath, fixes) # table) =
     bind_io (fix_file re_sub filepath fixes) (\<lambda>u. apply_patches re_sub table)"
  by (simp add: apply_patches_def)

lemma apply_patches_patched:
  assumes "distinct (map fst table)" and "apply_patches re_sub table w = (Inr (), w1)"
  shows "(\<forall>entry \<in> set table. patched re_sub w w1 entry)
         \<and> (\<forall>q. q \<notin> fst ` set table \<longrightarrow> files w1 q = files w q)"
  using assms
proof (induction table arbitrary: w)
  case Nil
  then show ?case by (simp add: apply_patches_def return_io_def)
next
  case (Cons entry table)
  obtain filepath fxs where entry: "entry = (filepath, fxs)" by (cases entry)
  from Cons.prems(2) entry
  have "bind_io (fix_file re_sub filepath fxs) (\<lambda>u. apply_patches re_sub table) w = (Inr (), w1)"
    by (simp add: apply_patches_Cons)
  from bind_io_InrD [OF this] obtain w2 where
    one: "fix_file re_sub filepath fxs w = (Inr (), w2)"
    and rest: "apply_patches re_sub table w2 = (Inr (), w1)"
    by auto
  from Cons.prems(1) entry have dist: "distinct (map fst table)" and fresh: "filepath \<notin> fst ` set table"
    by auto
  from Cons.IH [OF dist rest] have
    ih1: "\<forall>e \<in> set table. patched re_sub w2 w1 e"
    and ih2: "\<forall>q. q \<notin> fst ` set table \<longrightarrow> files w1 q = files w2 q"
    by auto
  have ev: "new_events w w1 = new_events w w2 @ new_events w2 w1"
    using quiet_compose [OF quiet_fix_file one quiet_apply_patches rest] .
  have frame: "\<And>q. q \<noteq> filepath \<Longrightarrow> files w2 q = files w q"
    using fix_file_frame [of _ filepath re_sub fxs w] one by simp
  have head: "patched re_sub w w1 entry"
  proof -
    from fix_file_patched [OF one] have "patched re_sub w w2 (filepath, fxs)" .
    moreover from ih2 fresh have "files w1 filepath = files w2 filepath" by blast
    ultimately show ?thesis
      using ev entry patched_later [of re_sub w w2 "(filepath, fxs)" w1 "new_events w2 w1"] by simp
  qed
  have tail: "\<forall>e \<in> set table. patched re_sub w w1 e"
  proof
    fix e
    assume e: "e \<in> set table"
    with fresh have "fst e \<noteq> filepath" by auto
    then have "files w2 (fst e) = files w (fst e)" by (rule frame)
    with ih1 e ev show "patched re_sub w w1 e"
      using patched_earlier [of re_sub w2 w1 e w "new_events w w2"] by simp
  qed
  have other: "\<forall>q. q \<notin> fst ` set (entry # table) \<longrightarrow> files w1 q = files w q"
    using ih2 frame entry by auto
  from head tail other show ?case by simp
qed

lemma remove_if_exists_done:
  assumes "remove_if_exists p w = (Inr (), w1)"
  shows "files w1 = (files w)(p := None)
         \<and> (files w p \<noteq> None \<longrightarrow> new_events w w1 = [Stat p, Remove p, Print (''Removed '' @ p)])
         \<and> (files w p = None \<longrightarrow> new_events w w1 = [Stat p])"
proof (cases "files w p")
  case None
  with assms show ?thesis
    by (auto simp: remove_if_exists_def bind_io_def os_path_exists_def return_io_def new_events_def)
next
  case (Some nd)
  with assms show ?thesis
    by (cases nd)
       (auto simp: remove_if_exists_def bind_io_def os_path_exists_def os_remove_def py_print_def
          log_event_def new_events_def)
qed

lemma open_write_done:
  assumes "open_write p s w = (Inr (), w1)"
  shows "files w1 = (files w)(p \<mapsto> File s) \<and> new_events w w1 = [Write p s]"
  using assms
  by (auto simp: open_write_def log_event_def new_events_def split: option.splits node.splits)

lemma py_print_done:
  assumes "py_print s w = (r, w1)"
  shows "files w1 = files w \<and> new_events w w1 = [Print s]"
  using assms by (auto simp: py_print_def new_events_def)

lemma fix_eslint_paths: "distinct (map fst fix_eslint_patches)"
  by (simp add: fix_eslint_patches_def)

lemma fix_all_eslint_paths:
  "distinct (map fst fix_all_eslint_patches)"
  "''.eslintignore'' \<notin> fst ` set fix_all_eslint_patches"
  by (simp_all add: fix_all_eslint_patches_def)

lemma fix_final_eslint_paths:
  "distinct (map fst fix_final_eslint_patches)"
  "''eslint.config.mjs'' \<notin> fst ` set fix_final_eslint_patches"
  "''.eslintrc.json'' \<notin> fst ` set fix_final_eslint_patches"
  "''.eslintignore'' \<notin> fst ` set fix_final_eslint_patches"
  by (simp_all add: fix_final_eslint_patches_def)

lemma fix_eslint_edits_done:
  assumes "fix_eslint_edits re_sub w = (Inr (), w1)"
  shows "\<forall>entry \<in> set fix_eslint_patches. patched re_sub w w1 entry"
  using apply_patches_patched [OF fix_eslint_paths, of re_sub w w1] assms
  by (simp add: fix_eslint_edits_def)

lemma quiet_fix_all_tail: "quiet fix_all_tail"
  unfolding fix_all_tail_def by (intro quiet_bind quiet_write quiet_print)

lemma fix_all_tail_done:
  assumes "fix_all_tail w2 = (Inr (), w1)"
  shows "files w1 = (files w2)(''.eslintignore'' \<mapsto> File eslintignore)
         \<and> Write ''.eslintignore'' eslintignore \<in> set (new_events w2 w1)"
proof -
  from assms have "bind_io (open_write ''.eslintignore'' eslintignore)
      (\<lambda>u. py_print ''Created .eslintignore'') w2 = (Inr (), w1)"
    by (simp add: fix_all_tail_def)
  from bind_io_InrD [OF this] obtain w3 where
    a: "open_write ''.eslintignore'' eslintignore w2 = (Inr (), w3)"
    and b: "py_print ''Created .eslintignore'' w3 = (Inr (), w1)"
    by auto
  from open_write_done [OF a] py_print_done [OF b]
    new_events_step(1) [OF quiet_write a quiet_print b]
  show ?thesis by auto
qed

lemma edits_with_tail:
  assumes dist: "distinct (map fst table)"
    and run: "bind_io (apply_patches re_sub table) (\<lambda>u. tail) w = (Inr (), w1)"
    and qt: "quiet tail"
    and keep: "\<And>w2 q. tail w2 = (Inr (), w1) \<Longrightarrow> q \<in> fst ` set table \<Longrightarrow> files w1 q = files w2 q"
  shows "\<exists>w2. tail w2 = (Inr (), w1)
              \<and> (\<forall>entry \<in> set table. patched re_sub w w1 entry)
              \<and> set (new_events w2 w1) \<subseteq> set (new_events w w1)
              \<and> (\<forall>q. q \<notin> fst ` set table \<longrightarrow> files w2 q = files w q)"
proof -
  from bind_io_InrD [OF run] obtain w2 where
    p: "apply_patches re_sub table w = (Inr (), w2)" and t: "tail w2 = (Inr (), w1)"
    by auto
  from apply_patches_patched [OF dist p] have
    pa: "\<forall>entry \<in> set table. patched re_sub w w2 entry"
    and fr: "\<forall>q. q \<notin> fst ` set table \<longrightarrow> files w2 q = files w q"
    by auto
  have ev: "new_events w w1 = new_events w w2 @ new_events w2 w1"
    using quiet_compose [OF quiet_apply_patches p qt t] .
  have "\<forall>entry \<in> set table. patched re_sub w w1 entry"
  proof
    fix entry
    assume e: "entry \<in> set table"
    then have "files w1 (fst entry) = files w2 (fst entry)"
      using keep [OF t] by auto
    with pa e ev show "patched re_sub w w1 entry"
      using patched_later by blast
  qed
  with t fr ev show ?thesis by auto
qed

lemma fix_all_eslint_edits_done:
  assumes "fix_all_eslint_edits re_sub w = (Inr (), w1)"
  shows "(\<forall>entry \<in> set fix_all_eslint_patches. patched re_sub w w1 entry)
         \<and> files w1 ''.eslintignore'' = Some (File eslintignore)
         \<and> Write ''.eslintignore'' eslintignore \<in> set (new_events w w1)"
proof -
  from assms have run:
    "bind_io (apply_patches re_sub fix_all_eslint_patches) (\<lambda>u. fix_all_tail) w = (Inr (), w1)"
    by (simp add: fix_all_eslint_edits_def fix_all_tail_def)
  have keep: "\<And>w2 q. fix_all_tail w2 = (Inr (), w1) \<Longrightarrow> q \<in> fst ` set fix_all_eslint_patches
                \<Longrightarrow> files w1 q = files w2 q"
  proof -
    fix w2 q
    assume t: "fix_all_tail w2 = (Inr (), w1)" and q: "q \<in> fst ` set fix_all_eslint_patches"
    from q fix_all_eslint_paths(2) have "q \<noteq> ''.eslintignore''" by blast
    with fix_all_tail_done [OF t] show "files w1 q = files w2 q" by simp
  qed
  from edits_with_tail [OF fix_all_eslint_paths(1) run quiet_fix_all_tail keep]
  obtain w2 where t: "fix_all_tail w2 = (Inr (), w1)"
    and pa: "\<forall>entry \<in> set fix_all_eslint_patches. patched re_sub w w1 entry"
    and sub: "set (new_events w2 w1) \<subseteq> set (new_events w w1)"
    by blast
  from fix_all_tail_done [OF t] sub pa show ?thesis by auto
qed

lemma quiet_fix_final_tail: "quiet fix_final_tail"
  unfolding fix_final_tail_def
  by (intro quiet_bind quiet_write quiet_print quiet_remove_if_exists)

lemma fix_final_tail_done:
  assumes "fix_final_tail w2 = (Inr (), w1)"
  shows "files w1 = (files w2)(''eslint.config.mjs'' \<mapsto> File eslint_config,
                               ''.eslintrc.json'' := None, ''.eslintignore'' := None)
         \<and> Write ''eslint.config.mjs'' eslint_config \<in> set (new_events w2 w1)
         \<and> (files w2 ''.eslintrc.json'' \<noteq> None \<longrightarrow> Remove ''.eslintrc.json'' \<in> set (new_events w2 w1))
         \<and> (files w2 ''.eslintignore'' \<noteq> None \<longrightarrow> Remove ''.eslintignore'' \<in> set (new_events w2 w1))"
proof -
  let ?rest3 = "remove_if_exists ''.eslintignore''"
  let ?rest2 = "bind_io (remove_if_exists ''.eslintrc.json'') (\<lambda>u. ?rest3)"
  let ?rest1 = "bind_io (py_print ''Created eslint.config.mjs with ignores'') (\<lambda>u. ?rest2)"
  from assms have "bind_io (open_write ''eslint.config.mjs'' eslint_config) (\<lambda>u. ?rest1) w2 = (Inr (), w1)"
    by (simp add: fix_final_tail_def)
  from bind_io_InrD [OF this] obtain w3 where
    a: "open_write ''eslint.config.mjs'' eslint_config w2 = (Inr (), w3)" and r1: "?rest1 w3 = (Inr (), w1)"
    by auto
  from bind_io_InrD [OF r1] obtain w4 where
    b: "py_print ''Created eslint.config.mjs with ignores'' w3 = (Inr (), w4)" and r2: "?rest2 w4 = (Inr (), w1)"
    by auto
  from bind_io_InrD [OF r2] obtain w5 where
    c: "remove_if_exists ''.eslintrc.json'' w4 = (Inr (), w5)" and d: "?rest3 w5 = (Inr (), w1)"
    by auto
  have q3: "quiet ?rest3" by (rule quiet_remove_if_exists)
  have q2: "quiet ?rest2" by (intro quiet_bind quiet_remove_if_exists)
  have q1: "quiet ?rest1" by (intro quiet_bind quiet_print quiet_remove_if_exists)
  have e1: "new_events w2 w1 = new_events w2 w3 @ new_events w3 w1"
    using quiet_compose [OF quiet_write a q1 r1] .
  have e2: "new_events w3 w1 = new_events w3 w4 @ new_events w4 w1"
    using quiet_compose [OF quiet_print b q2 r2] .
  have e3: "new_events w4 w1 = new_events w4 w5 @ new_events w5 w1"
    using quiet_compose [OF quiet_remove_if_exists c q3 d] .
  note A = open_write_done [OF a] and B = py_print_done [OF b]
    and C = remove_if_exists_done [OF c] and D = remove_if_exists_done [OF d]
  from A B C D have fs: "files w1 = (files w2)(''eslint.config.mjs'' \<mapsto> File eslint_config,
                               ''.eslintrc.json'' := None, ''.eslintignore'' := None)"
    by simp
  from A e1 have wr: "Write ''eslint.config.mjs'' eslint_config \<in> set (new_events w2 w1)"
    by simp
  have rc: "files w2 ''.eslintrc.json'' \<noteq> None \<longrightarrow> Remove ''.eslintrc.json'' \<in> set (new_events w2 w1)"
  proof
    assume "files w2 ''.eslintrc.json'' \<noteq> None"
    with A B have "files w4 ''.eslintrc.json'' \<noteq> None" by simp
    with C have "Remove ''.eslintrc.json'' \<in> set (new_events w4 w5)" by simp
    with e1 e2 e3 show "Remove ''.eslintrc.json'' \<in> set (new_events w2 w1)" by simp
  qed
  have ig: "files w2 ''.eslintignore'' \<noteq> None \<longrightarrow> Remove ''.eslintignore'' \<in> set (new_events w2 w1)"
  proof
    assume "files w2 ''.eslintignore'' \<noteq> None"
    with A B C have "files w5 ''.eslintignore'' \<noteq> None" by simp
    with D have "Remove ''.eslintignore'' \<in> set (new_events w5 w1)" by simp
    with e1 e2 e3 show "Remove ''.eslintignore'' \<in> set (new_events w2 w1)" by simp
  qed
  from fs wr rc ig show ?thesis by blast
qed

lemma fix_final_eslint_edits_done:
  assumes "fix_final_eslint_edits re_sub w = (Inr (), w1)"
  shows "(\<forall>entry \<in> set fix_final_eslint_patches. patched re_sub w w1 entry)
         \<and> files w1 ''eslint.config.mjs'' = Some (File eslint_config)
         \<and> Write ''eslint.config.mjs'' eslint_config \<in> set (new_events w w1)
         \<and> files w1 ''.eslintrc.json'' = None
         \<and> files w1 ''.eslintignore'' = None
         \<and> (files w ''.eslintrc.json'' \<noteq> None \<longrightarrow> Remove ''.eslintrc.json'' \<in> set (new_events w w1))
         \<and> (files w ''.eslintignore'' \<noteq> None \<longrightarrow> Remove ''.eslintignore'' \<in> set (new_events w w1))"
proof -
  from assms have run:
    "bind_io (apply_patches re_sub fix_final_eslint_patches) (\<lambda>u. fix_final_tail) w = (Inr (), w1)"
    by (simp add: fix_final_eslint_edits_def fix_final_tail_def)
  have keep: "\<And>w2 q. fix_final_tail w2 = (Inr (), w1) \<Longrightarrow> q \<in> fst ` set fix_final_eslint_patches
                \<Longrightarrow> files w1 q = files w2 q"
  proof -
    fix w2 q
    assume t: "fix_final_tail w2 = (Inr (), w1)" and q: "q \<in> fst ` set fix_final_eslint_patches"
    from q fix_final_eslint_paths(2,3,4)
    have "q \<noteq> ''eslint.config.mjs''" "q \<noteq> ''.eslintrc.json''" "q \<noteq> ''.eslintignore''" by blast+
    with fix_final_tail_done [OF t] show "files w1 q = files w2 q" by simp
  qed
  from edits_with_tail [OF fix_final_eslint_paths(1) run quiet_fix_final_tail keep]
  obtain w2 where t: "fix_final_tail w2 = (Inr (), w1)"
    and pa: "\<forall>entry \<in> set fix_final_eslint_patches. patched re_sub w w1 entry"
    and sub: "set (new_events w2 w1) \<subseteq> set (new_events w w1)"
    and fr: "\<forall>q. q \<notin> fst ` set fix_final_eslint_patches \<longrightarrow> files w2 q = files w q"
    by blast
  from fr fix_final_eslint_paths(3,4) have
    "files w2 ''.eslintrc.json'' = files w ''.eslintrc.json''"
    "files w2 ''.eslintignore'' = files w ''.eslintignore''"
    by auto
  with fix_final_tail_done [OF t] sub pa show ?thesis by auto
qed

lemma chat_fixes_on_patch_world:
  "(''src/contexts/chat-context.tsx'', snd (hd fix_final_eslint_patches)) \<in> set fix_final_eslint_patches
   \<and> subst_fold py_re_sub (snd (hd fix_final_eslint_patches))
         (universal_newlines ''if (error?.status === 401) {\<newline>'')
       = Inr ''if ((error as { status?: number })?.status === 401) {\<newline>''"
  by code_simp

lemma final_on_patch_world:
  "fst (fix_final_eslint_main py_re_sub example_lint patch_world) = Inr ()
   \<and> new_events patch_world (snd (fix_final_eslint_main py_re_sub example_lint patch_world))
       = [Stat ''src/contexts/chat-context.tsx'',
          Read ''src/contexts/chat-context.tsx'',
          Write ''src/contexts/chat-context.tsx''
            ''if ((error as { status?: number })?.status === 401) {\<newline>'',
          Print ''Fixed: src/contexts/chat-context.tsx'',
          Stat ''src/lib/security/xss-protection.ts'',
          Read ''src/lib/security/xss-protection.ts'',
          Write ''src/lib/security/xss-protection.ts''
            ''return String(input as string | number | boolean)'',
          Print ''Fixed: src/lib/security/xss-protection.ts'',
          Write ''eslint.config.mjs'' eslint_config,
          Print ''Created eslint.config.mjs with ignores'',
          Stat ''.eslintrc.json'',
          Remove ''.eslintrc.json'',
          Print ''Removed .eslintrc.json'',
          Stat ''.eslintignore'',
          Remove ''.eslintignore'',
          Print ''Removed .eslintignore'',
          Print running_eslint,
          Run lint_command,
          Print ''2 problems'',
          Print ''npm warn'']"
  by code_simp


section \<open>The claims\<close>

text \<open>
  Claim C1. For a path that names an existing file and any ordered list of
  (pattern, replacement) pairs, the content \<open>fix_file\<close> ends with is the left-to-right
  fold of the substitution over the pairs, starting from the text read from the file, and
  \<open>fix_file\<close> writes that content to the file if and only if it differs from the text
  read. (When a substitution raises, the exception leaves \<open>fix_file\<close> and nothing is
  written.)
\<close>

theorem fix_file_folds_and_writes_iff_changed:
  assumes "files w filepath = Some (File raw)"
  shows "(case subst_fold re_sub fixes (universal_newlines raw) of
            Inl e \<Rightarrow>
              fst (fix_file re_sub filepath fixes w) = Inl e
              \<and> files (snd (fix_file re_sub filepath fixes w)) = files w
              \<and> new_events w (snd (fix_file re_sub filepath fixes w)) = [Stat filepath, Read filepath]
          | Inr content \<Rightarrow>
              fst (fix_file re_sub filepath fixes w) = Inr ()
              \<and> files (snd (fix_file re_sub filepath fixes w))
                  = (if content \<noteq> universal_newlines raw
                     then (files w)(filepath \<mapsto> File content) else files w)
              \<and> new_events w (snd (fix_file re_sub filepath fixes w))
                  = (if content \<noteq> universal_newlines raw
                     then [Stat filepath, Read filepath, Write filepath content,
                           Print (''Fixed: '' @ filepath)]
                     else [Stat filepath, Read filepath]))"
  using assms by (rule fix_file_existing_fold)

theorem fix_file_folds_and_writes_iff_changed_witness:
  "files example_world server_ts = Some (File (''} catch (error) {'' @ [CR, LF]))
   \<and> fst (fix_file py_re_sub server_ts server_fixes example_world) = Inr ()
   \<and> files (snd (fix_file py_re_sub server_ts server_fixes example_world)) server_ts
       = Some (File ''} catch (_error) {\<newline>'')
   \<and> new_events example_world (snd (fix_file py_re_sub server_ts server_fixes example_world))
       = [Stat server_ts, Read server_ts, Write server_ts ''} catch (_error) {\<newline>'',
          Print (''Fixed: '' @ server_ts)]"
proof -
  have ex: "files example_world server_ts = Some (File (''} catch (error) {'' @ [CR, LF]))"
    by (simp add: example_world_def server_ts_def)
  from fix_file_folds_and_writes_iff_changed [OF ex, of py_re_sub server_fixes] server_fixes_fold ex
  show ?thesis by simp
qed

text \<open>
  Claim C2. For an existing file whose text is matched by none of the patterns of the
  list, \<open>fix_file\<close> leaves every file as it was, writes nothing and prints no "Fixed"
  message; and a single substitution whose pattern has no match returns the content
  unchanged. The pairs range over the modelled fragment, which holds every pair of the
  patch tables.
\<close>

theorem no_match_leaves_file_untouched:
  assumes "files w filepath = Some (File raw)"
    and "\<forall>(pattern, replacement) \<in> set fixes.
           in_fragment pattern replacement \<and> \<not> re_matches pattern (universal_newlines raw)"
  shows "fst (fix_file py_re_sub filepath fixes w) = Inr ()
         \<and> files (snd (fix_file py_re_sub filepath fixes w)) = files w
         \<and> new_events w (snd (fix_file py_re_sub filepath fixes w)) = [Stat filepath, Read filepath]
         \<and> (\<forall>pattern replacement content.
               in_fragment pattern replacement \<longrightarrow> \<not> re_matches pattern content
               \<longrightarrow> py_re_sub pattern replacement content = Inr content)"
proof -
  from assms(2) have "apply_fixes py_re_sub fixes (universal_newlines raw) = Inr (universal_newlines raw)"
    by (rule apply_fixes_no_match)
  then have "subst_fold py_re_sub fixes (universal_newlines raw) = Inr (universal_newlines raw)"
    by (simp add: apply_fixes_is_fold)
  with fix_file_existing_fold [OF assms(1), of py_re_sub "fixes"]
  show ?thesis by (simp add: py_re_sub_no_match)
qed

theorem no_match_leaves_file_untouched_witness:
  "files example_world server_ts = Some (File (''} catch (error) {'' @ [CR, LF]))
   \<and> list_all (\<lambda>(pattern, replacement).
                   in_fragment pattern replacement
                   \<and> \<not> re_matches pattern (universal_newlines (''} catch (error) {'' @ [CR, LF])))
        (snd (fix_final_eslint_patches ! 1))
   \<and> fst (fix_file py_re_sub server_ts (snd (fix_final_eslint_patches ! 1)) example_world) = Inr ()
   \<and> files (snd (fix_file py_re_sub server_ts (snd (fix_final_eslint_patches ! 1)) example_world))
       = files example_world
   \<and> new_events example_world
        (snd (fix_file py_re_sub server_ts (snd (fix_final_eslint_patches ! 1)) example_world))
       = [Stat server_ts, Read server_ts]"
proof -
  have ex: "files example_world server_ts = Some (File (''} catch (error) {'' @ [CR, LF]))"
    by (simp add: example_world_def server_ts_def)
  from no_match_leaves_file_untouched [OF ex xss_fixes_fragment] ex xss_fixes_fragment
  show ?thesis by (simp add: list_all_iff)
qed

text \<open>
  Claim C3, as amended. For an existing file whose text is matched by at least one of the
  patterns of the list, the content \<open>fix_file\<close> ends with is the fold of the
  substitutions; the file holds that content afterwards, and the "Fixed" message naming
  the file is printed exactly when that content differs from the text read.
\<close>

theorem pattern_present_fixed_iff_changed:
  assumes "files w filepath = Some (File raw)"
    and "\<exists>(pattern, replacement) \<in> set fixes. re_matches pattern (universal_newlines raw)"
    and "subst_fold py_re_sub fixes (universal_newlines raw) = Inr content"
  shows "files (snd (fix_file py_re_sub filepath fixes w)) filepath
           = Some (File (if content \<noteq> universal_newlines raw then content else raw))
         \<and> (Print (''Fixed: '' @ filepath) \<in> set (new_events w (snd (fix_file py_re_sub filepath fixes w))))
           = (content \<noteq> universal_newlines raw)"
  using fix_file_existing_fold [OF assms(1), of py_re_sub "fixes"] assms(1,3)
  by simp

theorem pattern_present_fixed_iff_changed_witness:
  "files example_world server_ts = Some (File (''} catch (error) {'' @ [CR, LF]))
   \<and> (\<exists>(pattern, replacement) \<in> set server_fixes.
         re_matches pattern (universal_newlines (''} catch (error) {'' @ [CR, LF])))
   \<and> subst_fold py_re_sub server_fixes (universal_newlines (''} catch (error) {'' @ [CR, LF]))
       = Inr ''} catch (_error) {\<newline>''
   \<and> files (snd (fix_file py_re_sub server_ts server_fixes example_world)) server_ts
       = Some (File ''} catch (_error) {\<newline>'')
   \<and> Print (''Fixed: '' @ server_ts)
       \<in> set (new_events example_world (snd (fix_file py_re_sub server_ts server_fixes example_world)))"
proof -
  have ex: "files example_world server_ts = Some (File (''} catch (error) {'' @ [CR, LF]))"
    by (simp add: example_world_def server_ts_def)
  from pattern_present_fixed_iff_changed [OF ex server_fixes_match server_fixes_fold]
    ex server_fixes_match server_fixes_fold
  show ?thesis by simp
qed

text \<open>
  The claim as worded, that a file containing one of the patterns always gets the "Fixed"
  message, fails on the first call of \<^verbatim>\<open>fix_final_eslint.py\<close>: its first fix replaces
  \<^verbatim>\<open>} catch (error) {\<close> by the same text, so a file in which only that pattern occurs
  comes out equal to what was read, and the guard \<^verbatim>\<open>if content != original\<close> skips the
  write and the message.
\<close>

theorem pattern_present_not_fixed_counterexample:
  "fst (hd fix_final_eslint_patches) = ''src/contexts/chat-context.tsx''
   \<and> files chat_world ''src/contexts/chat-context.tsx'' = Some (File ''} catch (error) {'')
   \<and> re_matches (fst (hd (snd (hd fix_final_eslint_patches)))) (universal_newlines ''} catch (error) {'')
   \<and> Print ''Fixed: src/contexts/chat-context.tsx''
        \<notin> set (new_events chat_world
                 (snd (fix_file py_re_sub ''src/contexts/chat-context.tsx''
                         (snd (hd fix_final_eslint_patches)) chat_world)))"
proof -
  have ex: "files chat_world ''src/contexts/chat-context.tsx'' = Some (File ''} catch (error) {'')"
    by (simp add: chat_world_def)
  have p: "fst (hd fix_final_eslint_patches) = ''src/contexts/chat-context.tsx''"
    by (simp add: fix_final_eslint_patches_def)
  from fix_file_existing_fold [OF ex, of py_re_sub "snd (hd fix_final_eslint_patches)"] chat_fixes_fold ex p
  show ?thesis by simp
qed

text \<open>
  Claim C4. For a path that does not exist and any list of fixes, \<open>fix_file\<close> prints
  "File not found: " followed by the path, reads nothing, writes nothing, raises no
  exception and returns: the file is skipped.
\<close>

theorem fix_file_missing_is_skipped:
  assumes "files w filepath = None"
  shows "fst (fix_file re_sub filepath fixes w) = Inr ()
         \<and> files (snd (fix_file re_sub filepath fixes w)) = files w
         \<and> new_events w (snd (fix_file re_sub filepath fixes w))
             = [Stat filepath, Print (''File not found: '' @ filepath)]"
  using fix_file_missing [OF assms, of re_sub "fixes"] by (simp add: new_events_def)

theorem fix_file_missing_is_skipped_witness:
  "files example_world ''src/app/signup/page.tsx'' = None
   \<and> fst (fix_file py_re_sub ''src/app/signup/page.tsx'' server_fixes example_world) = Inr ()
   \<and> files (snd (fix_file py_re_sub ''src/app/signup/page.tsx'' server_fixes example_world))
       = files example_world
   \<and> new_events example_world
         (snd (fix_file py_re_sub ''src/app/signup/page.tsx'' server_fixes example_world))
       = [Stat ''src/app/signup/page.tsx'', Print ''File not found: src/app/signup/page.tsx'']"
proof -
  have ex: "files example_world ''src/app/signup/page.tsx'' = None"
    by (simp add: example_world_def server_ts_def)
  from fix_file_missing_is_skipped [OF ex, of py_re_sub server_fixes] ex
  show ?thesis by simp
qed

text \<open>
  Claim C5. In \<^verbatim>\<open>fix_final_eslint.py\<close> the deletion of each legacy configuration file
  (\<^verbatim>\<open>.eslintrc.json\<close>, \<^verbatim>\<open>.eslintignore\<close>) is guarded by an existence check: when
  the file does not exist, the step changes no file, prints nothing and raises nothing,
  where the bare \<^verbatim>\<open>os.remove\<close> would raise.
\<close>

theorem legacy_removal_guarded:
  assumes "p \<in> {''.eslintrc.json'', ''.eslintignore''}" and "files w p = None"
  shows "fst (remove_if_exists p w) = Inr ()
         \<and> files (snd (remove_if_exists p w)) = files w
         \<and> new_events w (snd (remove_if_exists p w)) = [Stat p]
         \<and> fst (os_remove p w) = Inl (FileNotFoundError p)"
  using assms(2)
  by (simp add: remove_if_exists_def bind_io_def os_path_exists_def return_io_def os_remove_def
      new_events_def)

theorem legacy_removal_guarded_witness:
  "''.eslintrc.json'' \<in> {''.eslintrc.json'', ''.eslintignore''}
   \<and> files example_world ''.eslintrc.json'' = None
   \<and> fst (remove_if_exists ''.eslintrc.json'' example_world) = Inr ()
   \<and> files (snd (remove_if_exists ''.eslintrc.json'' example_world)) = files example_world
   \<and> new_events example_world (snd (remove_if_exists ''.eslintrc.json'' example_world))
       = [Stat ''.eslintrc.json'']"
proof -
  have ex: "files example_world ''.eslintrc.json'' = None"
    by (simp add: example_world_def server_ts_def)
  have m: "''.eslintrc.json'' \<in> {''.eslintrc.json'', ''.eslintignore''}" by simp
  from legacy_removal_guarded [OF m ex] ex show ?thesis by simp
qed

text \<open>
  Claim C6. Writing a linter configuration text to its file and reading the file back
  yields the text that was written, for \<^verbatim>\<open>eslint.config.mjs\<close> of the final script and
  for \<^verbatim>\<open>.eslintignore\<close> of the second one, provided the path is not a directory (then
  the write raises). The texts hold no carriage return, so the newline translation of the
  read changes nothing.
\<close>

theorem config_write_read_roundtrip:
  assumes "(p, config) \<in> {(''eslint.config.mjs'', eslint_config), (''.eslintignore'', eslintignore)}"
    and "files w p \<noteq> Some Dir"
  shows "fst (bind_io (open_write p config) (\<lambda>u. open_read p) w) = Inr config
         \<and> files (snd (bind_io (open_write p config) (\<lambda>u. open_read p) w)) p = Some (File config)"
proof -
  from assms(1) have "CR \<notin> set config"
    using eslint_config_no_cr eslintignore_no_cr by auto
  then have "universal_newlines config = config"
    by (rule universal_newlines_no_cr)
  with write_then_read [OF assms(2), of config] show ?thesis by simp
qed

theorem config_write_read_roundtrip_witness:
  "(''eslint.config.mjs'', eslint_config)
      \<in> {(''eslint.config.mjs'', eslint_config), (''.eslintignore'', eslintignore)}
   \<and> files example_world ''eslint.config.mjs'' \<noteq> Some Dir
   \<and> fst (bind_io (open_write ''eslint.config.mjs'' eslint_config) (\<lambda>u. open_read ''eslint.config.mjs'')
            example_world) = Inr eslint_config"
proof -
  have ex: "files example_world ''eslint.config.mjs'' \<noteq> Some Dir"
    by (simp add: example_world_def server_ts_def)
  have m: "(''eslint.config.mjs'', eslint_config)
      \<in> {(''eslint.config.mjs'', eslint_config), (''.eslintignore'', eslintignore)}" by simp
  from config_write_read_roundtrip [OF m ex] ex show ?thesis by simp
qed

text \<open>
  Claim C7. In each of the three scripts every edit happens before the lint subprocess is
  started. A run that ends normally has first run all edits: every file of the patch
  table that existed holds the fold of its fixes and was written if that changed it, the
  configuration file of the script is written, and in the final script the two legacy
  files are gone, removed if they existed. Then, on the files the edits left, the
  subprocess was started, once; it had returned before anything of it was printed, and
  its captured standard output and standard error were printed, in that order. A run that
  ends with an exception started no subprocess.
\<close>

theorem lint_runs_after_all_edits:
  assumes "(table, written, removed, edits, script) \<in>
             {(fix_eslint_patches, [], [],
               fix_eslint_edits re_sub, fix_eslint_main re_sub proc),
              (fix_all_eslint_patches, [(''.eslintignore'', eslintignore)], [],
               fix_all_eslint_edits re_sub, fix_all_eslint_main re_sub proc),
              (fix_final_eslint_patches, [(''eslint.config.mjs'', eslint_config)],
               [''.eslintrc.json'', ''.eslintignore''],
               fix_final_eslint_edits re_sub, fix_final_eslint_main re_sub proc)}"
    and "script w = (res, w')"
  shows "(case res of
            Inl e \<Rightarrow> \<forall>ev \<in> set (new_events w w'). \<not> is_run ev
          | Inr u \<Rightarrow>
              (\<exists>w1 result.
                 edits w = (Inr (), w1)
                 \<and> (\<forall>ev \<in> set (new_events w w1). \<not> is_run ev)
                 \<and> proc lint_command (files w1) = Inr (result, files w')
                 \<and> new_events w w' = new_events w w1
                      @ [Print running_eslint, Run lint_command,
                         Print (stdout result), Print (stderr result)]
                 \<and> (\<forall>(filepath, fixes) \<in> set table. \<forall>raw.
                       files w filepath = Some (File raw) \<longrightarrow>
                       (\<exists>content.
                          subst_fold re_sub fixes (universal_newlines raw) = Inr content
                          \<and> files w1 filepath
                              = Some (File (if content \<noteq> universal_newlines raw then content else raw))
                          \<and> (content \<noteq> universal_newlines raw
                               \<longrightarrow> Write filepath content \<in> set (new_events w w1))))
                 \<and> (\<forall>(p, config) \<in> set written.
                       files w1 p = Some (File config) \<and> Write p config \<in> set (new_events w w1))
                 \<and> (\<forall>p \<in> set removed.
                       files w1 p = None
                       \<and> (files w p \<noteq> None \<longrightarrow> Remove p \<in> set (new_events w w1)))))"
proof (cases res)
  case (Inl e)
  from assms(1) have "quiet edits \<and> script = bind_io edits (\<lambda>u. lint_and_report proc)"
    by (auto simp: quiet_fix_eslint_edits quiet_fix_all_eslint_edits quiet_fix_final_eslint_edits
        fix_eslint_main_def fix_all_eslint_main_def fix_final_eslint_main_def)
  with assms(2) lint_after_quiet_edits [of edits proc w res w'] Inl show ?thesis
    by simp
next
  case (Inr u)
  from assms(1) have "quiet edits \<and> script = bind_io edits (\<lambda>u. lint_and_report proc)"
    by (auto simp: quiet_fix_eslint_edits quiet_fix_all_eslint_edits quiet_fix_final_eslint_edits
        fix_eslint_main_def fix_all_eslint_main_def fix_final_eslint_main_def)
  with assms(2) lint_after_quiet_edits [of edits proc w res w'] Inr obtain w1 result where
    ed: "edits w = (Inr (), w1)"
    and nr: "\<forall>ev \<in> set (new_events w w1). \<not> is_run ev"
    and pr: "proc lint_command (files w1) = Inr (result, files w')"
    and ev: "new_events w w' = new_events w w1
                @ [Print running_eslint, Run lint_command, Print (stdout result), Print (stderr result)]"
    by auto
  have did:
    "(\<forall>entry \<in> set table. patched re_sub w w1 entry)
     \<and> (\<forall>(p, config) \<in> set written.
           files w1 p = Some (File config) \<and> Write p config \<in> set (new_events w w1))
     \<and> (\<forall>p \<in> set removed.
           files w1 p = None \<and> (files w p \<noteq> None \<longrightarrow> Remove p \<in> set (new_events w w1)))"
    using assms(1) ed fix_eslint_edits_done [of re_sub w w1]
      fix_all_eslint_edits_done [of re_sub w w1] fix_final_eslint_edits_done [of re_sub w w1]
    by auto
  then have "\<forall>(filepath, fixes) \<in> set table. \<forall>raw.
                 files w filepath = Some (File raw) \<longrightarrow>
                 (\<exists>content.
                    subst_fold re_sub fixes (universal_newlines raw) = Inr content
                    \<and> files w1 filepath
                        = Some (File (if content \<noteq> universal_newlines raw then content else raw))
                    \<and> (content \<noteq> universal_newlines raw
                         \<longrightarrow> Write filepath content \<in> set (new_events w w1)))"
    unfolding patched_def by (simp add: case_prod_beta)
  with did ed nr pr ev Inr show ?thesis
    by auto
qed

theorem lint_runs_after_all_edits_witness:
  "(fix_final_eslint_patches, [(''eslint.config.mjs'', eslint_config)],
    [''.eslintrc.json'', ''.eslintignore''],
    fix_final_eslint_edits py_re_sub, fix_final_eslint_main py_re_sub example_lint) \<in>
       {(fix_eslint_patches, [], [],
         fix_eslint_edits py_re_sub, fix_eslint_main py_re_sub example_lint),
        (fix_all_eslint_patches, [(''.eslintignore'', eslintignore)], [],
         fix_all_eslint_edits py_re_sub, fix_all_eslint_main py_re_sub example_lint),
        (fix_final_eslint_patches, [(''eslint.config.mjs'', eslint_config)],
         [''.eslintrc.json'', ''.eslintignore''],
         fix_final_eslint_edits py_re_sub, fix_final_eslint_main py_re_sub example_lint)}
   \<and> fst (fix_final_eslint_main py_re_sub example_lint patch_world) = Inr ()
   \<and> new_events patch_world (snd (fix_final_eslint_main py_re_sub example_lint patch_world))
       = [Stat ''src/contexts/chat-context.tsx'',
          Read ''src/contexts/chat-context.tsx'',
          Write ''src/contexts/chat-context.tsx''
            ''if ((error as { status?: number })?.status === 401) {\<newline>'',
          Print ''Fixed: src/contexts/chat-context.tsx'',
          Stat ''src/lib/security/xss-protection.ts'',
          Read ''src/lib/security/xss-protection.ts'',
          Write ''src/lib/security/xss-protection.ts''
            ''return String(input as string | number | boolean)'',
          Print ''Fixed: src/lib/security/xss-protection.ts'',
          Write ''eslint.config.mjs'' eslint_config,
          Print ''Created eslint.config.mjs with ignores'',
          Stat ''.eslintrc.json'',
          Remove ''.eslintrc.json'',
          Print ''Removed .eslintrc.json'',
          Stat ''.eslintignore'',
          Remove ''.eslintignore'',
          Print ''Removed .eslintignore'',
          Print running_eslint,
          Run lint_command,
          Print ''2 problems'',
          Print ''npm warn'']
   \<and> (\<exists>w1 result.
         fix_final_eslint_edits py_re_sub patch_world = (Inr (), w1)
         \<and> example_lint lint_command (files w1)
             = Inr (result, files (snd (fix_final_eslint_main py_re_sub example_lint patch_world)))
         \<and> new_events patch_world (snd (fix_final_eslint_main py_re_sub example_lint patch_world))
             = new_events patch_world w1
                 @ [Print running_eslint, Run lint_command, Print (stdout result), Print (stderr result)]
         \<and> files w1 ''src/contexts/chat-context.tsx''
             = Some (File ''if ((error as { status?: number })?.status === 401) {\<newline>'')
         \<and> Write ''src/contexts/chat-context.tsx''
               ''if ((error as { status?: number })?.status === 401) {\<newline>''
             \<in> set (new_events patch_world w1)
         \<and> files w1 ''eslint.config.mjs'' = Some (File eslint_config)
         \<and> Write ''eslint.config.mjs'' eslint_config \<in> set (new_events patch_world w1)
         \<and> files w1 ''.eslintrc.json'' = None
         \<and> Remove ''.eslintrc.json'' \<in> set (new_events patch_world w1)
         \<and> files w1 ''.eslintignore'' = None
         \<and> Remove ''.eslintignore'' \<in> set (new_events patch_world w1))"
proof -
  let ?M = "fix_final_eslint_main py_re_sub example_lint"
  have m: "(fix_final_eslint_patches, [(''eslint.config.mjs'', eslint_config)],
    [''.eslintrc.json'', ''.eslintignore''],
    fix_final_eslint_edits py_re_sub, ?M) \<in>
       {(fix_eslint_patches, [], [],
         fix_eslint_edits py_re_sub, fix_eslint_main py_re_sub example_lint),
        (fix_all_eslint_patches, [(''.eslintignore'', eslintignore)], [],
         fix_all_eslint_edits py_re_sub, fix_all_eslint_main py_re_sub example_lint),
        (fix_final_eslint_patches, [(''eslint.config.mjs'', eslint_config)],
         [''.eslintrc.json'', ''.eslintignore''],
         fix_final_eslint_edits py_re_sub, ?M)}"
    by simp
  have run: "?M patch_world = (Inr (), snd (?M patch_world))"
    using final_on_patch_world by (metis prod.collapse)
  have raw: "files patch_world ''src/contexts/chat-context.tsx''
               = Some (File ''if (error?.status === 401) {\<newline>'')"
    and rc: "files patch_world ''.eslintrc.json'' \<noteq> None"
    and ig: "files patch_world ''.eslintignore'' \<noteq> None"
    by (simp_all add: patch_world_def)
  from lint_runs_after_all_edits [OF m run] obtain w1 result where
    ed: "fix_final_eslint_edits py_re_sub patch_world = (Inr (), w1)"
    and pr: "example_lint lint_command (files w1) = Inr (result, files (snd (?M patch_world)))"
    and ev: "new_events patch_world (snd (?M patch_world))
             = new_events patch_world w1
                 @ [Print running_eslint, Run lint_command, Print (stdout result), Print (stderr result)]"
    and tb: "\<forall>(filepath, fixes) \<in> set fix_final_eslint_patches. \<forall>raw.
               files patch_world filepath = Some (File raw) \<longrightarrow>
               (\<exists>content.
                  subst_fold py_re_sub fixes (universal_newlines raw) = Inr content
                  \<and> files w1 filepath
                      = Some (File (if content \<noteq> universal_newlines raw then content else raw))
                  \<and> (content \<noteq> universal_newlines raw
                       \<longrightarrow> Write filepath content \<in> set (new_events patch_world w1)))"
    and wr: "files w1 ''eslint.config.mjs'' = Some (File eslint_config)"
      "Write ''eslint.config.mjs'' eslint_config \<in> set (new_events patch_world w1)"
    and rm: "files w1 ''.eslintrc.json'' = None"
      "files patch_world ''.eslintrc.json'' \<noteq> None
         \<longrightarrow> Remove ''.eslintrc.json'' \<in> set (new_events patch_world w1)"
      "files w1 ''.eslintignore'' = None"
      "files patch_world ''.eslintignore'' \<noteq> None
         \<longrightarrow> Remove ''.eslintignore'' \<in> set (new_events patch_world w1)"
    by auto
  from tb chat_fixes_on_patch_world raw obtain content where
    c: "subst_fold py_re_sub (snd (hd fix_final_eslint_patches))
          (universal_newlines ''if (error?.status === 401) {\<newline>'') = Inr content"
      "files w1 ''src/contexts/chat-context.tsx''
         = Some (File (if content \<noteq> universal_newlines ''if (error?.status === 401) {\<newline>''
                       then content else ''if (error?.status === 401) {\<newline>''))"
      "content \<noteq> universal_newlines ''if (error?.status === 401) {\<newline>''
         \<longrightarrow> Write ''src/contexts/chat-context.tsx'' content \<in> set (new_events patch_world w1)"
    by fastforce
  from c(1) chat_fixes_on_patch_world
  have content: "content = ''if ((error as { status?: number })?.status === 401) {\<newline>''"
    by simp
  with c(2,3) have patched_chat:
    "files w1 ''src/contexts/chat-context.tsx''
       = Some (File ''if ((error as { status?: number })?.status === 401) {\<newline>'')"
    "Write ''src/contexts/chat-context.tsx''
        ''if ((error as { status?: number })?.status === 401) {\<newline>''
       \<in> set (new_events patch_world w1)"
    by simp_all
  from rm rc ig have removed:
    "Remove ''.eslintrc.json'' \<in> set (new_events patch_world w1)"
    "Remove ''.eslintignore'' \<in> set (new_events patch_world w1)"
    by simp_all
  from m final_on_patch_world ed pr ev patched_chat wr rm(1,3) removed
  show ?thesis by blast
qed

text \<open>
  Claim C8. For an existing file, \<open>fix_file\<close> with the empty list of fixes leaves every
  file as it was, writes nothing and prints nothing: its only effects are the existence
  check and the read.
\<close>

theorem fix_file_no_fixes_is_identity:
  assumes "files w filepath = Some (File raw)"
  shows "fst (fix_file re_sub filepath [] w) = Inr ()
         \<and> files (snd (fix_file re_sub filepath [] w)) = files w
         \<and> new_events w (snd (fix_file re_sub filepath [] w)) = [Stat filepath, Read filepath]"
  using fix_file_existing [OF assms, of re_sub "[]"] by (simp add: new_events_def)

theorem fix_file_no_fixes_is_identity_witness:
  "files example_world server_ts = Some (File (''} catch (error) {'' @ [CR, LF]))
   \<and> fst (fix_file py_re_sub server_ts [] example_world) = Inr ()
   \<and> files (snd (fix_file py_re_sub server_ts [] example_world)) = files example_world
   \<and> new_events example_world (snd (fix_file py_re_sub server_ts [] example_world))
       = [Stat server_ts, Read server_ts]"
proof -
  have ex: "files example_world server_ts = Some (File (''} catch (error) {'' @ [CR, LF]))"
    by (simp add: example_world_def server_ts_def)
  from fix_file_no_fixes_is_identity [OF ex, of py_re_sub] ex
  show ?thesis by simp
qed



text \<open>
  Claim C10. \<open>fix_file\<close> is deterministic: two runs with the same list of fixes, on
  worlds that agree on the path (both without it, or both with the same content), end with
  the same outcome, the same content at the path and the same sequence of effects and
  printed messages, whatever else differs between the two worlds.
\<close>

theorem fix_file_deterministic:
  assumes "files w1 filepath = files w2 filepath"
  shows "fst (fix_file re_sub filepath fixes w1) = fst (fix_file re_sub filepath fixes w2)
         \<and> files (snd (fix_file re_sub filepath fixes w1)) filepath
             = files (snd (fix_file re_sub filepath fixes w2)) filepath
         \<and> new_events w1 (snd (fix_file re_sub filepath fixes w1))
             = new_events w2 (snd (fix_file re_sub filepath fixes w2))"
proof (cases "files w1 filepath")
  case None
  with assms have n2: "files w2 filepath = None" by simp
  from fix_file_missing [OF None, of re_sub "fixes"] fix_file_missing [OF n2, of re_sub "fixes"]
    assms show ?thesis
    by (simp add: new_events_def)
next
  case (Some nd)
  show ?thesis
  proof (cases nd)
    case Dir
    with Some assms have d1: "files w1 filepath = Some Dir" and d2: "files w2 filepath = Some Dir"
      by simp_all
    from fix_file_directory [OF d1, of re_sub "fixes"] fix_file_directory [OF d2, of re_sub "fixes"]
      assms show ?thesis
      by (simp add: new_events_def)
  next
    case (File raw)
    with Some assms have f1: "files w1 filepath = Some (File raw)"
      and f2: "files w2 filepath = Some (File raw)"
      by simp_all
    from fix_file_existing_fold [OF f1, of re_sub "fixes"]
      fix_file_existing_fold [OF f2, of re_sub "fixes"] f1 f2
    show ?thesis
      by (cases "subst_fold re_sub fixes (universal_newlines raw)") auto
  qed
qed

theorem fix_file_deterministic_witness:
  "files example_world server_ts = files other_world server_ts
   \<and> example_world \<noteq> other_world
   \<and> fst (fix_file py_re_sub server_ts server_fixes example_world)
       = fst (fix_file py_re_sub server_ts server_fixes other_world)
   \<and> files (snd (fix_file py_re_sub server_ts server_fixes example_world)) server_ts
       = files (snd (fix_file py_re_sub server_ts server_fixes other_world)) server_ts
   \<and> new_events example_world (snd (fix_file py_re_sub server_ts server_fixes example_world))
       = new_events other_world (snd (fix_file py_re_sub server_ts server_fixes other_world))"
proof -
  have ex: "files example_world server_ts = files other_world server_ts"
    by (simp add: example_world_def other_world_def server_ts_def)
  have ne: "example_world \<noteq> other_world"
    by (simp add: example_world_def other_world_def)
  from fix_file_deterministic [OF ex, of py_re_sub server_fixes] ex ne
  show ?thesis by simp
qed

end
